theory Spec2Isabelle
  imports Main
begin

section \<open>Strings\<close>

text \<open>
  A JavaScript string is modelled as a \<open>string\<close> whose characters are its code units; the
  model covers the strings whose code units are all below 256 (ASCII and Latin-1). On these,
  \<open>\s\<close>, \<open>trim\<close> and \<open>toLowerCase\<close> act exactly as defined here: the white space characters
  are tab, line feed, vertical tab, form feed, carriage return, space and no-break space, and
  the letters with a lower-case form are A-Z and U+00C0-U+00DE without the multiplication sign.
\<close>

definition is_space :: "char \<Rightarrow> bool" where
  "is_space c = (of_char c \<in> {9, 10, 11, 12, 13, 32, 160 :: nat})"

definition toLower :: "char \<Rightarrow> char" where
  "toLower c = (let n = (of_char c :: nat) in
     if (65 \<le> n \<and> n \<le> 90) \<or> (192 \<le> n \<and> n \<le> 222 \<and> n \<noteq> 215)
     then char_of (n + 32) else c)"

definition toLowerCase :: "string \<Rightarrow> string" where
  "toLowerCase s = map toLower s"

definition trim :: "string \<Rightarrow> string" where
  "trim s = rev (dropWhile is_space (rev (dropWhile is_space s)))"

definition startsWith :: "string \<Rightarrow> string \<Rightarrow> bool" where
  "startsWith s p = (take (length p) s = p)"

fun includes_str :: "string \<Rightarrow> string \<Rightarrow> bool" where
  "includes_str [] sub = (sub = [])"
| "includes_str (c # cs) sub = (startsWith (c # cs) sub \<or> includes_str cs sub)"

text \<open>\<open>termString.split(',')\<close>: the pieces between the separators, empty pieces included.\<close>

fun split_on :: "char \<Rightarrow> string \<Rightarrow> string list" where
  "split_on sep [] = [[]]"
| "split_on sep (c # cs) =
     (if c = sep then [] # split_on sep cs
      else (case split_on sep cs of
              [] \<Rightarrow> [[c]]
            | w # ws \<Rightarrow> (c # w) # ws))"

text \<open>The decimal numeral a template literal prints for an identifier.\<close>

fun string_of_nat :: "nat \<Rightarrow> string" where
  "string_of_nat n =
     (if n < 10 then [char_of (48 + n)]
      else string_of_nat (n div 10) @ [char_of (48 + n mod 10)])"

text \<open>\<open>x?.trim()\<close> on a column that may be absent; an absent column behaves as the empty
  string in every truthiness test the program makes.\<close>

definition opt_trim :: "string option \<Rightarrow> string" where
  "opt_trim x = (case x of None \<Rightarrow> [] | Some s \<Rightarrow> trim s)"

text \<open>\<open>!x || !x.trim()\<close>\<close>

definition blank :: "string option \<Rightarrow> bool" where
  "blank x = (case x of None \<Rightarrow> True | Some s \<Rightarrow> s = [] \<or> trim s = [])"

text \<open>\<open>a || b\<close> on values that are a string or undefined.\<close>

definition or_else :: "string option \<Rightarrow> string option \<Rightarrow> string option" where
  "or_else a b = (case a of Some s \<Rightarrow> (if s \<noteq> [] then Some s else b) | None \<Rightarrow> b)"

subsection \<open>The regular-expression replacements of normalizeTitle\<close>

text \<open>The rest of the string after the first occurrence of \<open>c\<close>.\<close>

definition skip_past :: "char \<Rightarrow> string \<Rightarrow> string" where
  "skip_past c cs = tl (dropWhile (\<lambda>x. x \<noteq> c) cs)"

lemma length_skip_past: "length (skip_past c cs) < Suc (length cs)"
  unfolding skip_past_def
  by (metis length_dropWhile_le length_tl diff_le_self le_trans le_imp_less_Suc)

text \<open>\<open>.replace(/<[^>]*>/g, '')\<close>: a \<open><\<close> with a later \<open>>\<close> is removed up to the first such
  \<open>>\<close>; scanning goes on after the match.\<close>

function strip_tags :: "string \<Rightarrow> string" where
  "strip_tags [] = []"
| "strip_tags (c # cs) =
     (if c = CHR ''<'' \<and> CHR ''>'' \<in> set cs
      then strip_tags (skip_past (CHR ''>'') cs)
      else c # strip_tags cs)"
  by pat_completeness auto
termination
  by (relation "measure length") (auto simp: length_skip_past)

text \<open>\<open>.replace(/pat/g, rep)\<close> for a literal, non-empty pattern.\<close>

function replaceAll :: "string \<Rightarrow> string \<Rightarrow> string \<Rightarrow> string" where
  "replaceAll pat rep [] = []"
| "replaceAll pat rep (c # cs) =
     (if pat \<noteq> [] \<and> take (length pat) (c # cs) = pat
      then rep @ replaceAll pat rep (drop (length pat) (c # cs))
      else c # replaceAll pat rep cs)"
  by pat_completeness auto
termination
  by (relation "measure (\<lambda>(pat, rep, s). length s)") auto

text \<open>\<open>/&[^;]+;/\<close> matches at an ampersand \<open>c\<close> followed by \<open>cs\<close>: the next character is not a
  semicolon and a semicolon comes later.\<close>

definition entity_at :: "char \<Rightarrow> string \<Rightarrow> bool" where
  "entity_at c cs = (c = CHR ''&'' \<and>
     (case cs of [] \<Rightarrow> False | d # ds \<Rightarrow> d \<noteq> CHR '';'' \<and> CHR '';'' \<in> set ds))"

function remove_entities :: "string \<Rightarrow> string" where
  "remove_entities [] = []"
| "remove_entities (c # cs) =
     (if entity_at c cs
      then remove_entities (skip_past (CHR '';'') cs)
      else c # remove_entities cs)"
  by pat_completeness auto
termination
  by (relation "measure length") (auto simp: length_skip_past)

text \<open>\<open>.replace(/\s+/g, ' ')\<close>\<close>

function collapse_ws :: "string \<Rightarrow> string" where
  "collapse_ws [] = []"
| "collapse_ws (c # cs) =
     (if is_space c
      then CHR '' '' # collapse_ws (dropWhile is_space cs)
      else c # collapse_ws cs)"
  by pat_completeness auto
termination
  by (relation "measure length") (auto simp: length_dropWhile_le le_imp_less_Suc)

definition normalizeTitle :: "string \<Rightarrow> string" where
  "normalizeTitle str =
     (if str = [] then []
      else let s1 = strip_tags str;
               s2 = replaceAll ''&nbsp;'' '' '' s1;
               s3 = replaceAll ''&amp;'' ''&'' s2;
               s4 = replaceAll ''&quot;'' [CHR 0x22] s3;
               s5 = replaceAll ''&#8217;'' [CHR 0x27] s4;
               s6 = replaceAll ''&#8216;'' [CHR 0x27] s5;
               s7 = replaceAll ''&#39;'' [CHR 0x27] s6;
               s8 = replaceAll ''&#038;'' ''&'' s7;
               s9 = remove_entities s8;
               s10 = collapse_ws s9
           in trim (toLowerCase s10))"

section \<open>Data model\<close>

text \<open>An exception: its message and, for a rejected HTTP call, the serialized
  \<open>error.response.data\<close>.\<close>

record exn =
  message :: string
  response_data :: "string option"

definition Error :: "string \<Rightarrow> exn" where
  "Error msg = \<lparr>message = msg, response_data = None\<rparr>"

type_synonym 'a reply = "exn + 'a"

text \<open>One parsed CSV row: a column is a string, or absent.\<close>

record row =
  row_title :: "string option"
  row_content :: "string option"
  row_status :: "string option"
  row_slug :: "string option"
  row_excerpt :: "string option"
  row_acf_json :: "string option"
  row_categories :: "string option"
  row_tags :: "string option"
  row_featured_image_path :: "string option"
  row_featured_image_url :: "string option"

text \<open>\<open>postData\<close>, the body of the create or update call.\<close>

record post_data =
  pd_title :: string
  pd_content :: string
  pd_status :: string
  pd_slug :: "string option"
  pd_excerpt :: "string option"
  pd_acf :: "string option"
  pd_categories :: "nat list option"
  pd_tags :: "nat list option"
  pd_featured_media :: "nat option"

text \<open>The \<open>title\<close> member of a listed post: an object with \<open>rendered\<close> and \<open>raw\<close>, a plain
  string, or missing.\<close>

datatype title_field =
    TitleObject "string option" "string option"
  | TitleString string
  | TitleMissing

record wp_post =
  post_id :: nat
  post_title :: title_field
  post_status :: string

record wp_term =
  term_id :: nat
  term_name :: string

record write_response =
  wr_id :: nat
  wr_status :: string

record http_response =
  resp_data :: string
  content_type :: "string option"
  content_disposition :: "string option"

record downloaded =
  buffer :: string
  mimeType :: string
  fileName :: string

datatype action = Created | Updated

record result =
  rowNumber :: nat
  res_title :: string
  res_action :: "action option"
  postId :: "nat option"
  res_status :: "string option"
  res_error :: "string option"

record summary =
  total :: nat
  success :: nat
  failed :: nat
  results :: "result list"

record config =
  DEFAULT_STATUS :: string
  REQUEST_DELAY_MS :: nat

subsection \<open>The remote site and the host\<close>

text \<open>
  The calls the program makes, with the parameters it sends:
  \<open>GetPostsPing\<close> is \<open>GET /posts {per_page: 1}\<close>;
  \<open>GetPostsPage p\<close> is \<open>GET /posts {per_page: 100, page: p, status: 'any', orderby: 'date', order: 'desc'}\<close>;
  \<open>GetPostsSlug s\<close> is \<open>GET /posts {slug: s, per_page: 1}\<close>;
  \<open>GetTerms taxonomy name\<close> is \<open>GET /taxonomy {search: name, per_page: 100}\<close>;
  \<open>PostTerm taxonomy name\<close> is \<open>POST /taxonomy {name}\<close>;
  \<open>AxiosGet url\<close> is the download of an image;
  \<open>PostMedia bytes mime filename\<close> is \<open>POST /media\<close>;
  \<open>PostPosts body\<close> is \<open>POST /posts\<close> (create);
  \<open>PostPostsId id body\<close> is \<open>POST /posts/id\<close> (update).
\<close>

datatype request =
    GetPostsPing
  | GetPostsPage nat
  | GetPostsSlug string
  | GetTerms string string
  | PostTerm string string
  | AxiosGet string
  | PostMedia string string string
  | PostPosts post_data
  | PostPostsId nat post_data

text \<open>The trace of a run: every call with its outcome, and every delay.\<close>

datatype event = Sleep nat | Returned request | Threw request

text \<open>
  The remote site is any deterministic state machine over a state \<open>'s\<close>: each endpoint maps
  the state to a reply (a value, or an exception) and a next state. Identifiers are natural
  numbers; a missing \<open>response.data\<close> of a listing is the empty list.
\<close>

record 's api =
  get_posts_ping :: "'s \<Rightarrow> wp_post list reply \<times> 's"
  get_posts_page :: "nat \<Rightarrow> 's \<Rightarrow> wp_post list reply \<times> 's"
  get_posts_slug :: "string \<Rightarrow> 's \<Rightarrow> wp_post list reply \<times> 's"
  get_terms :: "string \<Rightarrow> string \<Rightarrow> 's \<Rightarrow> wp_term list reply \<times> 's"
  post_term :: "string \<Rightarrow> string \<Rightarrow> 's \<Rightarrow> nat reply \<times> 's"
  post_media :: "string \<Rightarrow> string \<Rightarrow> string \<Rightarrow> 's \<Rightarrow> nat reply \<times> 's"
  post_posts :: "post_data \<Rightarrow> 's \<Rightarrow> write_response reply \<times> 's"
  post_posts_id :: "nat \<Rightarrow> post_data \<Rightarrow> 's \<Rightarrow> write_response reply \<times> 's"
  axios_get :: "string \<Rightarrow> 's \<Rightarrow> http_response reply \<times> 's"

text \<open>
  The library functions of the host, taken as parameters: \<open>new URL(u).pathname\<close> (\<open>None\<close> when
  the constructor throws), \<open>path.basename\<close>, \<open>path.resolve(__dirname, p)\<close>, \<open>mime.lookup\<close>
  (\<open>None\<close> for \<open>false\<close>), \<open>fs.existsSync\<close>, \<open>fs.readFileSync\<close> and \<open>JSON.parse\<close> (\<open>None\<close> when
  it throws).
\<close>

record host =
  url_pathname :: "string \<Rightarrow> string option"
  path_basename :: "string \<Rightarrow> string"
  path_resolve :: "string \<Rightarrow> string"
  mime_lookup :: "string \<Rightarrow> string option"
  fs_existsSync :: "string \<Rightarrow> bool"
  fs_readFileSync :: "string \<Rightarrow> string reply"
  json_parse :: "string \<Rightarrow> string option"

type_synonym 's world = "'s \<times> event list"

definition call :: "('s \<Rightarrow> 'a reply \<times> 's) \<Rightarrow> request \<Rightarrow> 's world \<Rightarrow> 'a reply \<times> 's world" where
  "call f req w =
     (case f (fst w) of
        (Inl error, s') \<Rightarrow> (Inl error, (s', snd w @ [Threw req]))
      | (Inr response, s') \<Rightarrow> (Inr response, (s', snd w @ [Returned req])))"

definition sleep :: "nat \<Rightarrow> 's world \<Rightarrow> 's world" where
  "sleep ms w = (fst w, snd w @ [Sleep ms])"

text \<open>Truthiness of an identifier that may be \<open>null\<close>.\<close>

definition id_truthy :: "nat option \<Rightarrow> bool" where
  "id_truthy x = (case x of None \<Rightarrow> False | Some i \<Rightarrow> i \<noteq> 0)"

section \<open>The uploader\<close>

text \<open>
  The functions below follow the bulk uploader, called with an initialised client
  (\<open>apiInstance\<close> and \<open>config\<close> are not null) and without a progress callback. Console output
  is not modelled.
\<close>

subsection \<open>checkConnectivity\<close>

definition checkConnectivity :: "'s api \<Rightarrow> 's world \<Rightarrow> bool \<times> 's world" where
  "checkConnectivity apiInstance w =
     (case call (get_posts_ping apiInstance) GetPostsPing w of
        (Inr response, w1) \<Rightarrow> (True, w1)
      | (Inl error, w1) \<Rightarrow> (False, w1))"

subsection \<open>getOrCreateTerm and resolveTerms\<close>

definition getOrCreateTerm ::
  "'s api \<Rightarrow> string \<Rightarrow> string \<Rightarrow> nat \<Rightarrow> 's world \<Rightarrow> nat option \<times> 's world" where
  "getOrCreateTerm apiInstance name taxonomy delayMs w =
     (if name = [] \<or> trim name = [] then (None, w)
      else let trimmedName = trim name in
        case call (get_terms apiInstance taxonomy trimmedName) (GetTerms taxonomy trimmedName) w of
          (Inl error, w1) \<Rightarrow> (None, w1)
        | (Inr searchResponse, w1) \<Rightarrow>
            (case find (\<lambda>t. toLowerCase (term_name t) = toLowerCase trimmedName) searchResponse of
               Some existing \<Rightarrow> (Some (term_id existing), w1)
             | None \<Rightarrow>
                 (case call (post_term apiInstance taxonomy trimmedName)
                         (PostTerm taxonomy trimmedName) (sleep delayMs w1) of
                    (Inl error, w2) \<Rightarrow> (None, w2)
                  | (Inr createdId, w2) \<Rightarrow> (Some createdId, w2))))"

text \<open>The \<open>for\<close> loop of resolveTerms over the names, with \<open>termIds\<close> as accumulator.\<close>

fun resolveTerms_loop ::
  "'s api \<Rightarrow> string list \<Rightarrow> string \<Rightarrow> nat \<Rightarrow> nat list \<Rightarrow> 's world \<Rightarrow> nat list \<times> 's world" where
  "resolveTerms_loop apiInstance [] taxonomy delayMs termIds w = (termIds, w)"
| "resolveTerms_loop apiInstance (name # names) taxonomy delayMs termIds w =
     (case getOrCreateTerm apiInstance name taxonomy delayMs w of
        (Some termId, w1) \<Rightarrow>
          resolveTerms_loop apiInstance names taxonomy delayMs
            (if termId \<noteq> 0 then termIds @ [termId] else termIds) (sleep delayMs w1)
      | (None, w1) \<Rightarrow>
          resolveTerms_loop apiInstance names taxonomy delayMs termIds (sleep delayMs w1))"

text \<open>\<open>termString.split(',').map(n => n.trim()).filter(Boolean)\<close>\<close>

definition term_names :: "string \<Rightarrow> string list" where
  "term_names termString = filter (\<lambda>n. n \<noteq> []) (map trim (split_on (CHR '','') termString))"

definition resolveTerms ::
  "'s api \<Rightarrow> string \<Rightarrow> string \<Rightarrow> nat \<Rightarrow> 's world \<Rightarrow> nat list \<times> 's world" where
  "resolveTerms apiInstance termString taxonomy delayMs w =
     (if termString = [] \<or> trim termString = [] then ([], w)
      else resolveTerms_loop apiInstance (term_names termString) taxonomy delayMs [] w)"

subsection \<open>downloadImageFromUrl and uploadMedia\<close>

definition downloadImageFromUrl ::
  "host \<Rightarrow> 's api \<Rightarrow> string \<Rightarrow> 's world \<Rightarrow> downloaded option \<times> 's world" where
  "downloadImageFromUrl h apiInstance imageUrl w =
     (case call (axios_get apiInstance imageUrl) (AxiosGet imageUrl) w of
        (Inl error, w1) \<Rightarrow> (None, w1)
      | (Inr response, w1) \<Rightarrow>
          (case url_pathname h imageUrl of
             None \<Rightarrow> (None, w1)
           | Some pathname \<Rightarrow>
               (Some \<lparr>buffer = resp_data response,
                      mimeType = (case or_else (content_type response) (mime_lookup h imageUrl) of
                                    Some m \<Rightarrow> (if m \<noteq> [] then m else ''image/jpeg'')
                                  | None \<Rightarrow> ''image/jpeg''),
                      fileName = (if path_basename h pathname \<noteq> [] then path_basename h pathname
                                  else ''image.jpg'')\<rparr>, w1)))"

text \<open>The \<open>try\<close> block at the end of uploadMedia: the delay, then \<open>POST /media\<close>.\<close>

definition post_media_file ::
  "'s api \<Rightarrow> nat \<Rightarrow> string \<Rightarrow> string \<Rightarrow> string \<Rightarrow> 's world \<Rightarrow> nat option \<times> 's world" where
  "post_media_file apiInstance delayMs fileBuffer mimeType' fileName' w =
     (case call (post_media apiInstance fileBuffer mimeType' fileName')
             (PostMedia fileBuffer mimeType' fileName') (sleep delayMs w) of
        (Inl error, w1) \<Rightarrow> (None, w1)
      | (Inr mediaId, w1) \<Rightarrow> (Some mediaId, w1))"

text \<open>uploadMedia returns an identifier or \<open>null\<close>; reading a local file is outside its
  \<open>try\<close> block, so a read error propagates to the caller.\<close>

definition uploadMedia ::
  "host \<Rightarrow> 's api \<Rightarrow> string \<Rightarrow> nat \<Rightarrow> 's world \<Rightarrow> nat option reply \<times> 's world" where
  "uploadMedia h apiInstance filePathOrUrl delayMs w =
     (if filePathOrUrl = [] \<or> trim filePathOrUrl = [] then (Inr None, w)
      else if startsWith (trim filePathOrUrl) ''http://''
              \<or> startsWith (trim filePathOrUrl) ''https://''
      then (case downloadImageFromUrl h apiInstance (trim filePathOrUrl) w of
              (None, w1) \<Rightarrow> (Inr None, w1)
            | (Some d, w1) \<Rightarrow>
                (case post_media_file apiInstance delayMs (buffer d) (mimeType d) (fileName d) w1 of
                   (mediaId, w2) \<Rightarrow> (Inr mediaId, w2)))
      else let fullPath = path_resolve h filePathOrUrl in
        if \<not> fs_existsSync h fullPath then (Inr None, w)
        else (case fs_readFileSync h fullPath of
                Inl error \<Rightarrow> (Inl error, w)
              | Inr fileBuffer \<Rightarrow>
                  (case post_media_file apiInstance delayMs fileBuffer
                          (case mime_lookup h fullPath of
                             Some m \<Rightarrow> (if m \<noteq> [] then m else ''application/octet-stream'')
                           | None \<Rightarrow> ''application/octet-stream'')
                          (path_basename h fullPath) w of
                     (mediaId, w1) \<Rightarrow> (Inr mediaId, w1))))"

subsection \<open>findPostBySlug and findPostByTitle\<close>

definition findPostBySlug :: "'s api \<Rightarrow> string \<Rightarrow> 's world \<Rightarrow> nat option \<times> 's world" where
  "findPostBySlug apiInstance slug w =
     (if slug = [] \<or> trim slug = [] then (None, w)
      else case call (get_posts_slug apiInstance (trim slug)) (GetPostsSlug (trim slug)) w of
             (Inl error, w1) \<Rightarrow> (None, w1)
           | (Inr [], w1) \<Rightarrow> (None, w1)
           | (Inr (post # posts), w1) \<Rightarrow> (Some (post_id post), w1))"

text \<open>\<open>post.title?.rendered || post.title?.raw || post.title || ''\<close>: a string, or (\<open>None\<close>)
  the title object itself when neither \<open>rendered\<close> nor \<open>raw\<close> is a non-empty string.\<close>

definition postTitleRaw :: "title_field \<Rightarrow> string option" where
  "postTitleRaw t =
     (case t of
        TitleMissing \<Rightarrow> Some []
      | TitleString s \<Rightarrow> Some s
      | TitleObject rendered raw \<Rightarrow>
          (case or_else rendered raw of
             Some s \<Rightarrow> (if s \<noteq> [] then Some s else None)
           | None \<Rightarrow> None))"

text \<open>normalizeTitle applied to that value: on an object, \<open>str.replace\<close> throws a TypeError.\<close>

definition postTitleNormalized :: "wp_post \<Rightarrow> string reply" where
  "postTitleNormalized post =
     (case postTitleRaw (post_title post) of
        Some postTitleRaw' \<Rightarrow> Inr (normalizeTitle postTitleRaw')
      | None \<Rightarrow> Inl (Error ''str.replace is not a function''))"

text \<open>The \<open>for\<close> loop over the posts of one page; the substring tests of \<open>mightMatch\<close> only
  select what is printed.\<close>

fun check_page :: "string \<Rightarrow> wp_post list \<Rightarrow> nat option reply" where
  "check_page normalizedSearchTitle [] = Inr None"
| "check_page normalizedSearchTitle (post # posts) =
     (case postTitleNormalized post of
        Inl error \<Rightarrow> Inl error
      | Inr postTitleNormalized' \<Rightarrow>
          (if postTitleNormalized' = normalizedSearchTitle then Inr (Some (post_id post))
           else check_page normalizedSearchTitle posts))"

definition perPage :: nat where
  "perPage = 100"

text \<open>The \<open>while (hasMore)\<close> loop, entered with the current page; an exception leaves it.\<close>

function scan_pages ::
  "'s api \<Rightarrow> string \<Rightarrow> nat \<Rightarrow> 's world \<Rightarrow> nat option reply \<times> 's world" where
  "scan_pages apiInstance normalizedSearchTitle page w =
     (case call (get_posts_page apiInstance page) (GetPostsPage page) w of
        (Inl error, w1) \<Rightarrow> (Inl error, w1)
      | (Inr response, w1) \<Rightarrow>
          (if response = [] then (Inr None, w1)
           else (case check_page normalizedSearchTitle response of
                   Inl error \<Rightarrow> (Inl error, w1)
                 | Inr (Some found) \<Rightarrow> (Inr (Some found), w1)
                 | Inr None \<Rightarrow>
                     (if length response < perPage then (Inr None, w1)
                      else if page + 1 > 10 then (Inr None, w1)
                      else scan_pages apiInstance normalizedSearchTitle (page + 1) w1))))"
  by pat_completeness auto
termination
  by (relation "measure (\<lambda>(apiInstance, t, page, w). 10 - page)") auto

definition findPostByTitle :: "'s api \<Rightarrow> string \<Rightarrow> 's world \<Rightarrow> nat option \<times> 's world" where
  "findPostByTitle apiInstance title w =
     (if title = [] \<or> trim title = [] then (None, w)
      else case scan_pages apiInstance (normalizeTitle title) 1 w of
             (Inl error, w1) \<Rightarrow> (None, w1)
           | (Inr found, w1) \<Rightarrow> (found, w1))"

subsection \<open>createOrUpdatePost\<close>

definition validate_row :: "row \<Rightarrow> unit reply" where
  "validate_row r =
     (if blank (row_title r) then Inl (Error ''Missing required field: title'')
      else if blank (row_content r) then Inl (Error ''Missing required field: content'')
      else Inr ())"

text \<open>\<open>postData\<close> as built from the columns of the row, before any remote call.\<close>

definition build_post_data :: "host \<Rightarrow> config \<Rightarrow> row \<Rightarrow> post_data" where
  "build_post_data h cfg r =
     \<lparr>pd_title = opt_trim (row_title r),
      pd_content = opt_trim (row_content r),
      pd_status = (if opt_trim (row_status r) \<noteq> [] then opt_trim (row_status r)
                   else DEFAULT_STATUS cfg),
      pd_slug = (if opt_trim (row_slug r) \<noteq> [] then Some (opt_trim (row_slug r)) else None),
      pd_excerpt = (if opt_trim (row_excerpt r) \<noteq> [] then Some (opt_trim (row_excerpt r))
                    else None),
      pd_acf = (if opt_trim (row_acf_json r) \<noteq> []
                then (case row_acf_json r of Some j \<Rightarrow> json_parse h j | None \<Rightarrow> None)
                else None),
      pd_categories = None,
      pd_tags = None,
      pd_featured_media = None\<rparr>"

definition resolve_categories ::
  "'s api \<Rightarrow> config \<Rightarrow> row \<Rightarrow> post_data \<Rightarrow> 's world \<Rightarrow> post_data \<times> 's world" where
  "resolve_categories apiInstance cfg r postData w =
     (case row_categories r of
        None \<Rightarrow> (postData, w)
      | Some termString \<Rightarrow>
          (if trim termString = [] then (postData, w)
           else case resolveTerms apiInstance termString ''categories'' (REQUEST_DELAY_MS cfg) w of
                  (categoryIds, w1) \<Rightarrow>
                    (if categoryIds \<noteq> [] then postData\<lparr>pd_categories := Some categoryIds\<rparr>
                     else postData, w1)))"

definition resolve_tags ::
  "'s api \<Rightarrow> config \<Rightarrow> row \<Rightarrow> post_data \<Rightarrow> 's world \<Rightarrow> post_data \<times> 's world" where
  "resolve_tags apiInstance cfg r postData w =
     (case row_tags r of
        None \<Rightarrow> (postData, w)
      | Some termString \<Rightarrow>
          (if trim termString = [] then (postData, w)
           else case resolveTerms apiInstance termString ''tags'' (REQUEST_DELAY_MS cfg) w of
                  (tagIds, w1) \<Rightarrow>
                    (if tagIds \<noteq> [] then postData\<lparr>pd_tags := Some tagIds\<rparr>
                     else postData, w1)))"

definition upload_featured_image ::
  "host \<Rightarrow> 's api \<Rightarrow> config \<Rightarrow> row \<Rightarrow> post_data \<Rightarrow> 's world \<Rightarrow> post_data reply \<times> 's world" where
  "upload_featured_image h apiInstance cfg r postData w =
     (let imagePath = (if opt_trim (row_featured_image_path r) \<noteq> []
                       then opt_trim (row_featured_image_path r)
                       else opt_trim (row_featured_image_url r))
      in if imagePath = [] then (Inr postData, w)
         else case uploadMedia h apiInstance imagePath (REQUEST_DELAY_MS cfg) w of
                (Inl error, w1) \<Rightarrow> (Inl error, w1)
              | (Inr mediaId, w1) \<Rightarrow>
                  (if id_truthy mediaId then Inr (postData\<lparr>pd_featured_media := mediaId\<rparr>)
                   else Inr postData, w1))"

text \<open>The first part of the \<open>try\<close> block, up to the upload of the featured image.\<close>

definition prepare_row ::
  "host \<Rightarrow> 's api \<Rightarrow> config \<Rightarrow> row \<Rightarrow> 's world \<Rightarrow> post_data reply \<times> 's world" where
  "prepare_row h apiInstance cfg r w =
     (case validate_row r of
        Inl error \<Rightarrow> (Inl error, w)
      | Inr _ \<Rightarrow>
          (case resolve_categories apiInstance cfg r (build_post_data h cfg r) w of
             (postData1, w1) \<Rightarrow>
               (case resolve_tags apiInstance cfg r postData1 w1 of
                  (postData2, w2) \<Rightarrow> upload_featured_image h apiInstance cfg r postData2 w2)))"

definition duplicate_error :: "string \<Rightarrow> nat \<Rightarrow> exn" where
  "duplicate_error title' existingPostByTitle =
     Error (''Post with title '' @ [CHR 0x22] @ title' @ [CHR 0x22] @ '' already exists (ID: ''
            @ string_of_nat existingPostByTitle @ ''). Duplicate posts are not allowed.'')"

text \<open>The delay and the write: an update when \<open>existingPostId\<close> is truthy, a create
  otherwise.\<close>

definition write_post ::
  "'s api \<Rightarrow> config \<Rightarrow> post_data \<Rightarrow> nat option \<Rightarrow> 's world \<Rightarrow>
   (action \<times> write_response) reply \<times> 's world" where
  "write_post apiInstance cfg postData existingPostId w =
     (if id_truthy existingPostId
      then (case call (post_posts_id apiInstance (case existingPostId of Some i \<Rightarrow> i | None \<Rightarrow> 0)
                         postData)
                   (PostPostsId (case existingPostId of Some i \<Rightarrow> i | None \<Rightarrow> 0) postData)
                   (sleep (REQUEST_DELAY_MS cfg) w) of
              (Inl error, w1) \<Rightarrow> (Inl error, w1)
            | (Inr updateResponse, w1) \<Rightarrow> (Inr (Updated, updateResponse), w1))
      else (case call (post_posts apiInstance postData) (PostPosts postData)
                   (sleep (REQUEST_DELAY_MS cfg) w) of
              (Inl error, w1) \<Rightarrow> (Inl error, w1)
            | (Inr createResponse, w1) \<Rightarrow> (Inr (Created, createResponse), w1)))"

text \<open>The lookup by slug, made only when \<open>postData\<close> has a slug.\<close>

definition lookup_slug :: "'s api \<Rightarrow> post_data \<Rightarrow> 's world \<Rightarrow> nat option \<times> 's world" where
  "lookup_slug apiInstance postData w =
     (case pd_slug postData of
        Some slug \<Rightarrow> findPostBySlug apiInstance slug w
      | None \<Rightarrow> (None, w))"

text \<open>The second part of the \<open>try\<close> block: the duplicate check by title, the lookup by slug
  and the write.\<close>

definition check_then_write ::
  "'s api \<Rightarrow> config \<Rightarrow> post_data \<Rightarrow> 's world \<Rightarrow> (action \<times> write_response) reply \<times> 's world" where
  "check_then_write apiInstance cfg postData w =
     (case findPostByTitle apiInstance (pd_title postData) w of
        (existingPostByTitle, w1) \<Rightarrow>
          (if id_truthy existingPostByTitle
           then (Inl (duplicate_error (pd_title postData)
                        (case existingPostByTitle of Some i \<Rightarrow> i | None \<Rightarrow> 0)), w1)
           else (case lookup_slug apiInstance postData w1 of
                   (existingPostId, w2) \<Rightarrow> write_post apiInstance cfg postData existingPostId w2)))"

definition try_block ::
  "host \<Rightarrow> 's api \<Rightarrow> config \<Rightarrow> row \<Rightarrow> 's world \<Rightarrow> (action \<times> write_response) reply \<times> 's world" where
  "try_block h apiInstance cfg r w =
     (case prepare_row h apiInstance cfg r w of
        (Inl error, w1) \<Rightarrow> (Inl error, w1)
      | (Inr postData, w1) \<Rightarrow> check_then_write apiInstance cfg postData w1)"

text \<open>The \<open>catch\<close> block's message: the serialized response data is appended when present.\<close>

definition error_text :: "exn \<Rightarrow> string" where
  "error_text e =
     (case response_data e of
        Some d \<Rightarrow> (if d \<noteq> [] then message e @ '': '' @ d else message e)
      | None \<Rightarrow> message e)"

definition createOrUpdatePost ::
  "host \<Rightarrow> 's api \<Rightarrow> config \<Rightarrow> row \<Rightarrow> nat \<Rightarrow> 's world \<Rightarrow> result \<times> 's world" where
  "createOrUpdatePost h apiInstance cfg r rowNumber' w =
     (let result0 = \<lparr>rowNumber = rowNumber',
                     res_title = (case row_title r of
                                    Some t \<Rightarrow> (if t \<noteq> [] then t else ''Untitled'')
                                  | None \<Rightarrow> ''Untitled''),
                     res_action = None, postId = None, res_status = None, res_error = None\<rparr>
      in case try_block h apiInstance cfg r w of
           (Inr (act, response), w1) \<Rightarrow>
             (result0\<lparr>res_action := Some act, postId := Some (wr_id response),
                      res_status := Some (wr_status response)\<rparr>, w1)
         | (Inl error, w1) \<Rightarrow> (result0\<lparr>res_error := Some (error_text error)\<rparr>, w1))"

subsection \<open>processCsvFile\<close>

text \<open>\<open>r.error\<close> as a condition: an error message that is a non-empty string.\<close>

definition has_error :: "result \<Rightarrow> bool" where
  "has_error r = (case res_error r of Some e \<Rightarrow> e \<noteq> [] | None \<Rightarrow> False)"

text \<open>The loop over the rows: \<open>i\<close> rows are done and \<open>logResults\<close> holds their results.\<close>

fun process_rows ::
  "host \<Rightarrow> 's api \<Rightarrow> config \<Rightarrow> row list \<Rightarrow> nat \<Rightarrow> result list \<Rightarrow> 's world \<Rightarrow>
   result list \<times> 's world" where
  "process_rows h apiInstance cfg [] i logResults w = (logResults, w)"
| "process_rows h apiInstance cfg (r # rows) i logResults w =
     (case createOrUpdatePost h apiInstance cfg r (i + 1) w of
        (result', w1) \<Rightarrow>
          process_rows h apiInstance cfg rows (i + 1) (logResults @ [result']) w1)"

text \<open>processCsvFile for an initialised client: \<open>loadCsv\<close> is what reading the file gave, the
  rows or an exception. The log file, the duration and the log path are not modelled.\<close>

definition processCsvFile ::
  "host \<Rightarrow> 's api \<Rightarrow> config \<Rightarrow> row list reply \<Rightarrow> 's world \<Rightarrow> summary reply \<times> 's world" where
  "processCsvFile h apiInstance cfg loadCsv w =
     (case checkConnectivity apiInstance w of
        (isConnected, w1) \<Rightarrow>
          (if \<not> isConnected
           then (Inl (Error ''WordPress REST API is not accessible. Check your configuration.''), w1)
           else case loadCsv of
                  Inl error \<Rightarrow> (Inl (Error (''Failed to load CSV: '' @ message error)), w1)
                | Inr rows \<Rightarrow>
                    (if length rows = 0 then (Inl (Error ''CSV file is empty''), w1)
                     else case process_rows h apiInstance cfg rows 0 [] w1 of
                            (logResults, w2) \<Rightarrow>
                              (Inr \<lparr>total = length rows,
                                    success = length (filter (\<lambda>r. \<not> has_error r) logResults),
                                    failed = length (filter has_error logResults),
                                    results = logResults\<rparr>, w2))))"

section \<open>The media helpers of the reproduction script\<close>

text \<open>The characters of \<open>[a-zA-Z0-9_-]\<close>.\<close>

definition id_char :: "char \<Rightarrow> bool" where
  "id_char c = (let n = (of_char c :: nat) in
     (97 \<le> n \<and> n \<le> 122) \<or> (65 \<le> n \<and> n \<le> 90) \<or> (48 \<le> n \<and> n \<le> 57) \<or> n = 95 \<or> n = 45)"

text \<open>\<open>url.match(/lit([a-zA-Z0-9_-]+)/)\<close>: the capture of the leftmost match.\<close>

fun match_id_after :: "string \<Rightarrow> string \<Rightarrow> string option" where
  "match_id_after lit [] = None"
| "match_id_after lit (c # cs) =
     (if startsWith (c # cs) lit \<and> takeWhile id_char (drop (length lit) (c # cs)) \<noteq> []
      then Some (takeWhile id_char (drop (length lit) (c # cs)))
      else match_id_after lit cs)"

definition convertGoogleDriveUrl :: "string \<Rightarrow> string" where
  "convertGoogleDriveUrl url =
     (if url = [] then url
      else if includes_str url ''drive.google.com''
      then (case (case match_id_after ''/d/'' url of
                    Some fileId \<Rightarrow> Some fileId
                  | None \<Rightarrow> match_id_after ''id='' url) of
              Some fileId \<Rightarrow> ''https://drive.google.com/uc?export=download&id='' @ fileId
            | None \<Rightarrow> url)
      else url)"

text \<open>\<open>contentDisposition.match(/filename="?([^"]+)"?/)\<close>: the capture of the leftmost
  match.\<close>

fun match_filename :: "string \<Rightarrow> string option" where
  "match_filename [] = None"
| "match_filename (c # cs) =
     (if startsWith (c # cs) ''filename=''
         \<and> takeWhile (\<lambda>x. x \<noteq> CHR 0x22)
              (case drop 9 (c # cs) of
                 [] \<Rightarrow> []
               | q # rest \<Rightarrow> (if q = CHR 0x22 then rest else q # rest)) \<noteq> []
      then Some (takeWhile (\<lambda>x. x \<noteq> CHR 0x22)
              (case drop 9 (c # cs) of
                 [] \<Rightarrow> []
               | q # rest \<Rightarrow> (if q = CHR 0x22 then rest else q # rest)))
      else match_filename cs)"

text \<open>The script's downloadImageFromUrl: an HTML response is refused. Its \<open>mimeType\<close> is the
  content type as received, empty when the header is absent.\<close>

definition downloadImageFromUrl_script ::
  "host \<Rightarrow> 's api \<Rightarrow> string \<Rightarrow> 's world \<Rightarrow> downloaded option \<times> 's world" where
  "downloadImageFromUrl_script h apiInstance imageUrl w =
     (case call (axios_get apiInstance imageUrl) (AxiosGet imageUrl) w of
        (Inl error, w1) \<Rightarrow> (None, w1)
      | (Inr response, w1) \<Rightarrow>
          (if (case content_type response of
                 Some contentType \<Rightarrow> contentType \<noteq> [] \<and> includes_str contentType ''text/html''
               | None \<Rightarrow> False)
           then (None, w1)
           else (case or_else (content_disposition response) None of
                   Some contentDisposition \<Rightarrow>
                     (Some \<lparr>buffer = resp_data response,
                            mimeType = (case content_type response of Some m \<Rightarrow> m | None \<Rightarrow> []),
                            fileName = (case match_filename contentDisposition of
                                          Some f \<Rightarrow> f
                                        | None \<Rightarrow> ''image.jpg'')\<rparr>, w1)
                 | None \<Rightarrow>
                     (case url_pathname h imageUrl of
                        None \<Rightarrow> (None, w1)
                      | Some urlPath \<Rightarrow>
                          (Some \<lparr>buffer = resp_data response,
                                 mimeType = (case content_type response of
                                               Some m \<Rightarrow> m | None \<Rightarrow> []),
                                 fileName = (if path_basename h urlPath \<noteq> []
                                             then path_basename h urlPath else ''image'')\<rparr>,
                           w1)))))"

section \<open>Reading a trace\<close>

definition request_of :: "event \<Rightarrow> request option" where
  "request_of ev = (case ev of Sleep ms \<Rightarrow> None | Returned req \<Rightarrow> Some req | Threw req \<Rightarrow> Some req)"

text \<open>The calls of a trace, in order, whatever their outcome.\<close>

definition requests :: "event list \<Rightarrow> request list" where
  "requests tr = List.map_filter request_of tr"

definition is_post_write :: "request \<Rightarrow> bool" where
  "is_post_write req = (case req of PostPosts body \<Rightarrow> True | PostPostsId i body \<Rightarrow> True | _ \<Rightarrow> False)"

text \<open>The create and update calls of a trace.\<close>

definition post_writes :: "event list \<Rightarrow> request list" where
  "post_writes tr = filter is_post_write (requests tr)"

text \<open>The trace of \<open>w'\<close> is the trace of \<open>w\<close> followed by calls that all satisfy \<open>Q\<close> (and delays).\<close>

definition extends_by :: "(request \<Rightarrow> bool) \<Rightarrow> 's world \<Rightarrow> 't world \<Rightarrow> bool" where
  "extends_by Q w w' = (\<exists>tr. snd w' = snd w @ tr \<and> list_all Q (requests tr))"

text \<open>The calls of the preparation of a row: taxonomy lookups and creations, the download and
  the upload of the image.\<close>

definition is_aux_request :: "request \<Rightarrow> bool" where
  "is_aux_request req = (case req of GetTerms taxonomy name \<Rightarrow> True | PostTerm taxonomy name \<Rightarrow> True
      | AxiosGet url \<Rightarrow> True | PostMedia bytes mime filename \<Rightarrow> True | _ \<Rightarrow> False)"

text \<open>The reply to a listing call lets the scan go on to the next page (when there is one):
  it is not an exception, it is not empty, none of its posts matches, and it is a full page.\<close>

definition page_continues :: "string \<Rightarrow> wp_post list reply \<Rightarrow> bool" where
  "page_continues t reply =
     (case reply of
        Inl error \<Rightarrow> False
      | Inr response \<Rightarrow> response \<noteq> [] \<and> check_page t response = Inr None
                        \<and> perPage \<le> length response)"

text \<open>What the scan returns when it stops at a page with this reply.\<close>

definition page_outcome :: "string \<Rightarrow> wp_post list reply \<Rightarrow> nat option reply" where
  "page_outcome t reply =
     (case reply of
        Inl error \<Rightarrow> Inl error
      | Inr response \<Rightarrow> (if response = [] then Inr None else check_page t response))"

definition threw :: "event \<Rightarrow> bool" where
  "threw ev = (case ev of Threw req \<Rightarrow> True | _ \<Rightarrow> False)"

declare scan_pages.simps [simp del]

text \<open>The event a listing of page \<open>q\<close> leaves in the trace when the replies are \<open>pages\<close>.\<close>

definition page_event :: "(nat \<Rightarrow> wp_post list reply) \<Rightarrow> nat \<Rightarrow> event" where
  "page_event pages q = (if isl (pages q) then Threw (GetPostsPage q) else Returned (GetPostsPage q))"

text \<open>The remote state after the listing calls for pages 1 to \<open>n\<close>, made in this order
  from state \<open>s\<close>.\<close>

primrec state_after :: "'s api \<Rightarrow> 's \<Rightarrow> nat \<Rightarrow> 's" where
  "state_after apiInstance s 0 = s"
| "state_after apiInstance s (Suc n) =
     snd (get_posts_page apiInstance (Suc n) (state_after apiInstance s n))"

text \<open>The reply the scan gets for page \<open>p\<close> when it starts in state \<open>s\<close> and reaches that page.\<close>

definition page_reply :: "'s api \<Rightarrow> 's \<Rightarrow> nat \<Rightarrow> wp_post list reply" where
  "page_reply apiInstance s p = fst (get_posts_page apiInstance p (state_after apiInstance s (p - 1)))"

text \<open>The calls findPostByTitle makes: what it adds to the trace.\<close>

definition scan_calls :: "'s api \<Rightarrow> string \<Rightarrow> 's world \<Rightarrow> request list" where
  "scan_calls apiInstance title w =
     requests (drop (length (snd w)) (snd (snd (findPostByTitle apiInstance title w))))"

section \<open>Example sites\<close>

text \<open>
  A small site in memory, used to run the uploader on concrete inputs: its posts (most
  recent first), its terms by taxonomy, the slugs of its posts, and the next free
  identifier. Creating a post, a term or a media item adds it under a fresh identifier.
\<close>

record site =
  site_posts :: "wp_post list"
  site_terms :: "(string \<times> wp_term) list"
  site_slugs :: "(string \<times> nat) list"
  site_next :: nat

definition jpeg_response :: http_response where
  "jpeg_response = \<lparr>resp_data = ''JFIF'', content_type = Some ''image/jpeg'',
     content_disposition = None\<rparr>"

definition memory_site :: "site api" where
  "memory_site =
     \<lparr>get_posts_ping = (\<lambda>s. (Inr (take 1 (site_posts s)), s)),
      get_posts_page = (\<lambda>page s. (Inr (take 100 (drop (100 * (page - 1)) (site_posts s))), s)),
      get_posts_slug = (\<lambda>slug s.
         (Inr (case map_of (site_slugs s) slug of
                 Some i \<Rightarrow> take 1 (filter (\<lambda>p. post_id p = i) (site_posts s))
               | None \<Rightarrow> []), s)),
      get_terms = (\<lambda>taxonomy search s.
         (Inr (map snd (filter (\<lambda>(tax, t). tax = taxonomy
                 \<and> includes_str (toLowerCase (term_name t)) (toLowerCase search))
                 (site_terms s))), s)),
      post_term = (\<lambda>taxonomy name s.
         (Inr (site_next s),
          s\<lparr>site_terms := site_terms s @ [(taxonomy, \<lparr>term_id = site_next s, term_name = name\<rparr>)],
            site_next := site_next s + 1\<rparr>)),
      post_media = (\<lambda>bytes mime filename s. (Inr (site_next s), s\<lparr>site_next := site_next s + 1\<rparr>)),
      post_posts = (\<lambda>body s.
         (Inr \<lparr>wr_id = site_next s, wr_status = pd_status body\<rparr>,
          s\<lparr>site_posts := \<lparr>post_id = site_next s,
                              post_title = TitleObject (Some (pd_title body)) None,
                              post_status = pd_status body\<rparr> # site_posts s,
            site_slugs := (case pd_slug body of
                             Some slug \<Rightarrow> (slug, site_next s) # site_slugs s
                           | None \<Rightarrow> site_slugs s),
            site_next := site_next s + 1\<rparr>)),
      post_posts_id = (\<lambda>i body s.
         (Inr \<lparr>wr_id = i, wr_status = pd_status body\<rparr>,
          s\<lparr>site_posts := map (\<lambda>p. if post_id p = i
                                     then p\<lparr>post_title := TitleObject (Some (pd_title body)) None,
                                            post_status := pd_status body\<rparr>
                                     else p) (site_posts s)\<rparr>)),
      axios_get = (\<lambda>url s. (Inr jpeg_response, s))\<rparr>"

definition empty_site :: site where
  "empty_site = \<lparr>site_posts = [], site_terms = [], site_slugs = [], site_next = 1\<rparr>"

definition example_host :: host where
  "example_host =
     \<lparr>url_pathname = (\<lambda>u. Some ''/photo.jpg''),
      path_basename = (\<lambda>p. ''photo.jpg''),
      path_resolve = (\<lambda>p. ''/srv/uploader/'' @ p),
      mime_lookup = (\<lambda>p. None),
      fs_existsSync = (\<lambda>p. False),
      fs_readFileSync = (\<lambda>p. Inl (Error ''ENOENT'')),
      json_parse = (\<lambda>j. None)\<rparr>"

definition example_config :: config where
  "example_config = \<lparr>DEFAULT_STATUS = ''draft'', REQUEST_DELAY_MS = 300\<rparr>"

definition empty_row :: row where
  "empty_row = \<lparr>row_title = None, row_content = None, row_status = None, row_slug = None,
     row_excerpt = None, row_acf_json = None, row_categories = None, row_tags = None,
     row_featured_image_path = None, row_featured_image_url = None\<rparr>"

text \<open>A row with a title and a content.\<close>

definition simple_row :: "string \<Rightarrow> string \<Rightarrow> row" where
  "simple_row t c = empty_row\<lparr>row_title := Some t, row_content := Some c\<rparr>"

text \<open>A published post of the site.\<close>

definition published :: "nat \<Rightarrow> string \<Rightarrow> wp_post" where
  "published i t = \<lparr>post_id = i, post_title = TitleObject (Some t) None, post_status = ''publish''\<rparr>"

text \<open>A site with 1001 posts: a thousand recent ones, and an older one titled
  \<open>Weekend Brunch\<close>.\<close>

definition older_posts :: "nat \<Rightarrow> wp_post list" where
  "older_posts n = map (\<lambda>i. published (Suc (Suc i)) ''Other news'') (rev [0..<n])"

definition crowded_site :: site where
  "crowded_site = empty_site
     \<lparr>site_posts := older_posts 1000 @ [published 1 ''Weekend Brunch''],
      site_next := 1002\<rparr>"

text \<open>A site with two posts.\<close>

definition small_site :: site where
  "small_site = empty_site
     \<lparr>site_posts := [published 8 ''Other news'', published 7 ''Weekend <em>Brunch</em>''],
      site_slugs := [(''other-news'', 8), (''weekend-brunch'', 7)],
      site_next := 9\<rparr>"

section \<open>Auxiliary predicates\<close>

text \<open>Fixed points of the steps of normalizeTitle: a string without a tag match, without
  an entity match, and with single spaces as its only white space.\<close>

fun no_tag :: "string \<Rightarrow> bool" where
  "no_tag [] = True"
| "no_tag (c # cs) = (\<not> (c = CHR ''<'' \<and> CHR ''>'' \<in> set cs) \<and> no_tag cs)"

fun no_entity :: "string \<Rightarrow> bool" where
  "no_entity [] = True"
| "no_entity (c # cs) = (\<not> entity_at c cs \<and> no_entity cs)"

fun ws_ok :: "string \<Rightarrow> bool" where
  "ws_ok [] = True"
| "ws_ok (c # cs) = ((\<not> is_space c \<or> (c = CHR '' '' \<and> (cs = [] \<or> \<not> is_space (hd cs)))) \<and> ws_ok cs)"

text \<open>A literal pattern every occurrence of which is a match of \<open>/&[^;]+;/\<close>.\<close>

definition entity_literal :: "string \<Rightarrow> bool" where
  "entity_literal pat = (case pat of
      a # b # rest \<Rightarrow> a = CHR ''&'' \<and> b \<noteq> CHR '';'' \<and> CHR '';'' \<in> set rest
    | _ \<Rightarrow> False)"

text \<open>The result of a row whose try block threw, and of one whose write returned.\<close>

definition failed_result :: "row \<Rightarrow> nat \<Rightarrow> string \<Rightarrow> result" where
  "failed_result r n msg =
     \<lparr>rowNumber = n,
      res_title = (case row_title r of Some t \<Rightarrow> (if t \<noteq> [] then t else ''Untitled'')
                   | None \<Rightarrow> ''Untitled''),
      res_action = None, postId = None, res_status = None, res_error = Some msg\<rparr>"

definition written_result :: "row \<Rightarrow> nat \<Rightarrow> action \<Rightarrow> write_response \<Rightarrow> result" where
  "written_result r n act response =
     \<lparr>rowNumber = n,
      res_title = (case row_title r of Some t \<Rightarrow> (if t \<noteq> [] then t else ''Untitled'')
                   | None \<Rightarrow> ''Untitled''),
      res_action = Some act, postId = Some (wr_id response),
      res_status = Some (wr_status response), res_error = None\<rparr>"

definition brunch_row :: row where
  "brunch_row = simple_row ''Weekend Brunch'' ''Join us on Sunday''"


definition brunch_again :: row where
  "brunch_again = simple_row '' weekend  BRUNCH'' ''Second copy''"

text \<open>The result of a row whose write call gave this reply.\<close>

definition write_outcome :: "row \<Rightarrow> nat \<Rightarrow> action \<Rightarrow> write_response reply \<Rightarrow> result" where
  "write_outcome r n act reply =
     (case reply of
        Inl error \<Rightarrow> failed_result r n (error_text error)
      | Inr response \<Rightarrow> written_result r n act response)"

text \<open>The event a call leaves in the trace, given its reply.\<close>

definition call_event :: "request \<Rightarrow> 'a reply \<Rightarrow> event" where
  "call_event req reply = (case reply of Inl error \<Rightarrow> Threw req | Inr response \<Rightarrow> Returned req)"

text \<open>The site in memory, refusing every update.\<close>

definition read_only_site :: "site api" where
  "read_only_site = memory_site
     \<lparr>post_posts_id := (\<lambda>i body s.
        (Inl \<lparr>message = ''Request failed with status code 403'',
              response_data = Some (''{'' @ [CHR 0x22] @ ''code'' @ [CHR 0x22] @ '':''
                @ [CHR 0x22] @ ''rest_cannot_edit'' @ [CHR 0x22] @ ''}'')\<rparr>, s))\<rparr>"

text \<open>A row with a new title and the slug of an existing post, and the same row without
  slug.\<close>

definition slug_row :: row where
  "slug_row = (simple_row ''Fresh title'' ''New text'')\<lparr>row_slug := Some '' other-news ''\<rparr>"

definition slug_data :: post_data where
  "slug_data = \<lparr>pd_title = ''Fresh title'', pd_content = ''New text'',
     pd_status = ''draft'', pd_slug = Some ''other-news'', pd_excerpt = None, pd_acf = None,
     pd_categories = None, pd_tags = None, pd_featured_media = None\<rparr>"

definition fresh_row :: row where
  "fresh_row = simple_row ''Fresh title'' ''New text''"

text \<open>The title a result carries for a row.\<close>

definition result_title :: "row \<Rightarrow> string" where
  "result_title r = (case row_title r of Some t \<Rightarrow> (if t \<noteq> [] then t else ''Untitled'')
                     | None \<Rightarrow> ''Untitled'')"

text \<open>What a step adds to the trace.\<close>

definition new_events :: "'s world \<Rightarrow> 's world \<Rightarrow> event list" where
  "new_events w w' = drop (length (snd w)) (snd w')"

text \<open>The trace of one row.\<close>

definition row_trace :: "host \<Rightarrow> 's api \<Rightarrow> config \<Rightarrow> row \<Rightarrow> nat \<Rightarrow> 's world \<Rightarrow> event list" where
  "row_trace h apiInstance cfg r n w =
     new_events w (snd (createOrUpdatePost h apiInstance cfg r n w))"



text \<open>What getOrCreateTerm returns for each label in turn, with the delay after each label:
  one outcome per label, in the order of the labels.\<close>

fun label_outcomes ::
  "'s api \<Rightarrow> string list \<Rightarrow> string \<Rightarrow> nat \<Rightarrow> 's world \<Rightarrow> nat option list" where
  "label_outcomes apiInstance [] taxonomy delayMs w = []"
| "label_outcomes apiInstance (name # names) taxonomy delayMs w =
     (case getOrCreateTerm apiInstance name taxonomy delayMs w of
        (termId, w1) \<Rightarrow> termId # label_outcomes apiInstance names taxonomy delayMs (sleep delayMs w1))"

text \<open>The identifier an outcome contributes: none when the label failed to resolve.\<close>

definition kept_id :: "nat option \<Rightarrow> nat list" where
  "kept_id termId = (case termId of Some i \<Rightarrow> (if i \<noteq> 0 then [i] else []) | None \<Rightarrow> [])"

text \<open>A share link of a private file, and the site in memory when every download answers
  with the sign-in page of the drive.\<close>

definition share_url :: string where
  "share_url = ''https://drive.google.com/file/d/106UqbiAdo-z6ROElnyEqHI-8Klhb_g2Z/view?usp=sharing''"

definition sign_in_page :: http_response where
  "sign_in_page = \<lparr>resp_data = ''<!DOCTYPE html><html><title>Sign in</title></html>'',
     content_type = Some ''text/html'', content_disposition = None\<rparr>"

definition private_drive_site :: "site api" where
  "private_drive_site = memory_site\<lparr>axios_get := (\<lambda>url s. (Inr sign_in_page, s))\<rparr>"

definition image_row :: row where
  "image_row = (simple_row ''Menu'' ''Our new menu'')\<lparr>row_featured_image_url := Some share_url\<rparr>"


definition termless_site :: "site api" where
  "termless_site = memory_site
     \<lparr>get_terms := (\<lambda>taxonomy search s. (Inl (Error ''timeout of 30000ms exceeded''), s))\<rparr>"

text \<open>A site with one category.\<close>

definition news_site :: site where
  "news_site = empty_site
     \<lparr>site_terms := [(''categories'', \<lparr>term_id = 4, term_name = ''News''\<rparr>)], site_next := 5\<rparr>"

text \<open>A row with a new title and a new slug.\<close>

definition new_slug_row :: row where
  "new_slug_row = (simple_row ''Fresh title'' ''New text'')\<lparr>row_slug := Some ''brand-new''\<rparr>"

section \<open>Title normalization\<close>

subsection \<open>Characters\<close>

lemma of_char_lt: "(of_char c :: nat) < 256"
  by (metis of_char_mod_256 mod_less_divisor zero_less_numeral)

lemma toLower_idem: "toLower (toLower c) = toLower c"
  using of_char_lt[of c] by (auto simp: toLower_def Let_def)

lemma toLower_eq_iff:
  assumes "(of_char d :: nat) \<notin> {97..122} \<union> {224..254}" "(of_char d :: nat) \<notin> {65..90} \<union> {192..222}"
  shows "toLower c = d \<longleftrightarrow> c = d"
proof
  assume h: "toLower c = d"
  show "c = d"
  proof (rule ccontr)
    assume "c \<noteq> d"
    with h have up: "(65 \<le> (of_char c :: nat) \<and> (of_char c :: nat) \<le> 90) \<or> (192 \<le> (of_char c :: nat) \<and> (of_char c :: nat) \<le> 222 \<and> (of_char c :: nat) \<noteq> 215)"
      and d: "d = char_of ((of_char c :: nat) + 32)"
      by (auto simp: toLower_def Let_def split: if_splits)
    from d have "(of_char d :: nat) = ((of_char c :: nat) + 32) mod 256" by simp
    with up have "(of_char d :: nat) = (of_char c :: nat) + 32" by auto
    with up assms(1) show False by auto
  qed
next
  assume "c = d"
  with assms(2) show "toLower c = d" by (auto simp: toLower_def Let_def)
qed

lemma toLower_special [simp]:
  "toLower c = CHR ''<'' \<longleftrightarrow> c = CHR ''<''"
  "toLower c = CHR ''>'' \<longleftrightarrow> c = CHR ''>''"
  "toLower c = CHR ''&'' \<longleftrightarrow> c = CHR ''&''"
  "toLower c = CHR '';'' \<longleftrightarrow> c = CHR '';''"
  "toLower c = CHR '' '' \<longleftrightarrow> c = CHR '' ''"
  by (rule toLower_eq_iff; simp)+

lemma eq_commute_iff: "((a = b) = Q) \<Longrightarrow> ((b = a) = Q)"
  by auto

lemma toLower_space: "is_space c \<Longrightarrow> toLower c = c"
  by (auto simp: toLower_def is_space_def Let_def)

lemma is_space_toLower: "is_space (toLower c) = is_space c"
  using of_char_lt[of c] by (auto simp: toLower_def is_space_def Let_def)

lemma skip_past_drop: "\<exists>n. skip_past c cs = drop n cs"
  unfolding skip_past_def
  by (metis dropWhile_eq_drop drop_Suc tl_drop)

lemma set_skip_past: "x \<in> set (skip_past c cs) \<Longrightarrow> x \<in> set cs"
  using skip_past_drop[of c cs] by (auto dest: in_set_dropD)

lemma dropWhile_drop: "\<exists>n. dropWhile P cs = drop n cs"
  by (metis dropWhile_eq_drop)

subsection \<open>Strings without a tag\<close>

lemma no_tag_append:
  "no_tag (xs @ ys) = (no_tag xs \<and> no_tag ys \<and> \<not> (CHR ''<'' \<in> set xs \<and> CHR ''>'' \<in> set ys))"
  by (induction xs) auto

lemma no_tag_drop: "no_tag s \<Longrightarrow> no_tag (drop n s)"
  by (metis append_take_drop_id no_tag_append)

lemma no_tag_take: "no_tag s \<Longrightarrow> no_tag (take n s)"
  by (metis append_take_drop_id no_tag_append)

lemma set_strip_tags: "x \<in> set (strip_tags s) \<Longrightarrow> x \<in> set s"
  by (induction s rule: strip_tags.induct) (auto split: if_splits dest: set_skip_past)

lemma no_tag_strip_tags: "no_tag (strip_tags s)"
  by (induction s rule: strip_tags.induct) (auto dest: set_strip_tags)

lemma strip_tags_id: "no_tag s \<Longrightarrow> strip_tags s = s"
  by (induction s) auto

lemma replaceAll_hit:
  "pat \<noteq> [] \<and> take (length pat) (c # cs) = pat \<Longrightarrow>
   replaceAll pat rep (c # cs) = rep @ replaceAll pat rep (drop (length pat) (c # cs))"
  by (subst replaceAll.simps) (rule if_P)

lemma replaceAll_miss:
  "\<not> (pat \<noteq> [] \<and> take (length pat) (c # cs) = pat) \<Longrightarrow>
   replaceAll pat rep (c # cs) = c # replaceAll pat rep cs"
  by (subst replaceAll.simps) (rule if_not_P)

lemma set_replaceAll: "x \<in> set (replaceAll pat rep s) \<Longrightarrow> x \<in> set s \<or> x \<in> set rep"
proof (induction pat rep s rule: replaceAll.induct)
  case (1 pat rep)
  then show ?case by simp
next
  case (2 pat rep c cs)
  show ?case
  proof (cases "pat \<noteq> [] \<and> take (length pat) (c # cs) = pat")
    case True
    have "x \<in> set rep \<or> x \<in> set (replaceAll pat rep (drop (length pat) (c # cs)))"
      using "2.prems" unfolding replaceAll_hit[OF True] by auto
    with "2.IH"(1)[OF True] have "x \<in> set rep \<or> x \<in> set (drop (length pat) (c # cs))" by blast
    then show ?thesis by (blast dest: in_set_dropD)
  next
    case False
    have "x = c \<or> x \<in> set (replaceAll pat rep cs)"
      using "2.prems" unfolding replaceAll_miss[OF False] by auto
    with "2.IH"(2)[OF False] show ?thesis by auto
  qed
qed

lemma no_tag_replaceAll:
  "no_tag s \<Longrightarrow> CHR ''<'' \<notin> set rep \<Longrightarrow> CHR ''>'' \<notin> set rep \<Longrightarrow>
   no_tag (replaceAll pat rep s)"
proof (induction pat rep s rule: replaceAll.induct)
  case (1 pat rep)
  then show ?case by simp
next
  case (2 pat rep c cs)
  show ?case
  proof (cases "pat \<noteq> [] \<and> take (length pat) (c # cs) = pat")
    case True
    have "no_tag (drop (length pat) (c # cs))" using "2.prems"(1) by (rule no_tag_drop)
    with 2 True have "no_tag (replaceAll pat rep (drop (length pat) (c # cs)))" by simp
    moreover have "no_tag rep" using "2.prems"(2) by (induction rep) auto
    ultimately show ?thesis using "2.prems"
      by (simp only: replaceAll_hit[OF True] no_tag_append) (blast dest: set_replaceAll in_set_dropD)
  next
    case False
    have "no_tag cs" using "2.prems"(1) by simp
    with "2.IH"(2)[OF False] "2.prems" have "no_tag (replaceAll pat rep cs)" by blast
    moreover have "\<not> (c = CHR ''<'' \<and> CHR ''>'' \<in> set (replaceAll pat rep cs))"
      using "2.prems" by (auto dest: set_replaceAll)
    ultimately show ?thesis by (simp only: replaceAll_miss[OF False] no_tag.simps) blast
  qed
qed

lemma set_remove_entities: "x \<in> set (remove_entities s) \<Longrightarrow> x \<in> set s"
  by (induction s rule: remove_entities.induct) (auto split: if_splits dest: set_skip_past)

lemma no_tag_skip_past: "no_tag s \<Longrightarrow> no_tag (skip_past c s)"
  using skip_past_drop[of c s] by (auto simp: no_tag_drop)

lemma no_tag_remove_entities: "no_tag s \<Longrightarrow> no_tag (remove_entities s)"
  by (induction s rule: remove_entities.induct)
     (auto simp: no_tag_skip_past dest: set_remove_entities)

lemma set_collapse_ws: "x \<in> set (collapse_ws s) \<Longrightarrow> x \<in> set s \<or> x = CHR '' ''"
  by (induction s rule: collapse_ws.induct) (auto split: if_splits dest: set_dropWhileD)

lemma no_tag_dropWhile: "no_tag s \<Longrightarrow> no_tag (dropWhile P s)"
  using dropWhile_drop[of P s] by (auto simp: no_tag_drop)

lemma no_tag_collapse_ws: "no_tag s \<Longrightarrow> no_tag (collapse_ws s)"
  by (induction s rule: collapse_ws.induct)
     (auto simp: no_tag_dropWhile dest: set_collapse_ws)

lemma no_tag_toLowerCase: "no_tag (toLowerCase s) = no_tag s"
  unfolding toLowerCase_def by (induction s) (auto simp: image_iff toLower_special[THEN eq_commute_iff])

lemma trim_take_drop: "\<exists>n m. trim s = take n (drop m s)"
proof -
  obtain m where m: "dropWhile is_space s = drop m s" using dropWhile_drop by blast
  have "rev (dropWhile is_space (rev t)) = take (length (rev (dropWhile is_space (rev t)))) t" for t
    by (metis append_eq_conv_conj rev_append rev_rev_ident takeWhile_dropWhile_id)
  then show ?thesis unfolding trim_def m by blast
qed

lemma no_tag_trim: "no_tag s \<Longrightarrow> no_tag (trim s)"
  using trim_take_drop[of s] by (auto simp: no_tag_drop no_tag_take)

subsection \<open>Strings without an entity\<close>

lemma entity_at_simps:
  "entity_at c [] = False"
  "entity_at c (d # ds) = (c = CHR ''&'' \<and> d \<noteq> CHR '';'' \<and> CHR '';'' \<in> set ds)"
  by (auto simp: entity_at_def)

lemma entity_at_semi_free: "CHR '';'' \<notin> set cs \<Longrightarrow> \<not> entity_at c cs"
  by (cases cs) (auto simp: entity_at_simps)

lemma entity_at_not_amp: "c \<noteq> CHR ''&'' \<Longrightarrow> \<not> entity_at c cs"
  by (simp add: entity_at_def)

lemma no_entity_drop: "no_entity s \<Longrightarrow> no_entity (drop n s)"
  by (induction s arbitrary: n) (auto simp: drop_Cons split: nat.splits)

lemma entity_at_take: "entity_at c (take n cs) \<Longrightarrow> entity_at c cs"
  by (cases cs; cases n) (auto simp: entity_at_simps dest: in_set_takeD)

lemma no_entity_take: "no_entity s \<Longrightarrow> no_entity (take n s)"
  by (induction s arbitrary: n) (auto simp: take_Cons split: nat.splits dest: entity_at_take)

lemma entity_at_remove_entities: "entity_at c (remove_entities cs) \<Longrightarrow> entity_at c cs"
proof (cases cs)
  case Nil
  then show "entity_at c (remove_entities cs) \<Longrightarrow> entity_at c cs" by simp
next
  case (Cons d ds)
  assume h: "entity_at c (remove_entities cs)"
  show "entity_at c cs"
  proof (cases "CHR '';'' \<in> set cs")
    case False
    then have "CHR '';'' \<notin> set (remove_entities cs)" by (auto dest: set_remove_entities)
    with h show ?thesis by (auto dest: entity_at_semi_free)
  next
    case True
    show ?thesis
    proof (cases "d = CHR '';''")
      case True
      then have "remove_entities cs = CHR '';'' # remove_entities ds"
        using Cons by (simp add: entity_at_not_amp)
      with h show ?thesis by (simp add: entity_at_simps)
    next
      case False
      from h have "c = CHR ''&''" by (simp add: entity_at_def)
      with \<open>CHR '';'' \<in> set cs\<close> False Cons show ?thesis by (auto simp: entity_at_simps)
    qed
  qed
qed

lemma no_entity_remove_entities: "no_entity (remove_entities s)"
  by (induction s rule: remove_entities.induct) (auto dest: entity_at_remove_entities)

lemma remove_entities_id: "no_entity s \<Longrightarrow> remove_entities s = s"
  by (induction s) auto

lemma not_space_special [simp]:
  "\<not> is_space (CHR ''&'')" "\<not> is_space (CHR '';'')" "is_space (CHR '' '')"
  by (auto simp: is_space_def)

lemma entity_at_collapse_ws: "entity_at c (collapse_ws cs) \<Longrightarrow> entity_at c cs"
proof (cases cs)
  case Nil
  then show "entity_at c (collapse_ws cs) \<Longrightarrow> entity_at c cs" by simp
next
  case (Cons d ds)
  assume h: "entity_at c (collapse_ws cs)"
  show "entity_at c cs"
  proof (cases "d = CHR '';''")
    case True
    then have "collapse_ws cs = CHR '';'' # collapse_ws ds"
      using Cons by simp
    with h show ?thesis by (simp add: entity_at_simps)
  next
    case False
    from h have "CHR '';'' \<in> set (collapse_ws cs)" using entity_at_semi_free by blast
    then have "CHR '';'' \<in> set cs" by (auto dest: set_collapse_ws)
    moreover from h have "c = CHR ''&''" by (simp add: entity_at_def)
    ultimately show ?thesis using False Cons by (auto simp: entity_at_simps)
  qed
qed

lemma no_entity_dropWhile: "no_entity s \<Longrightarrow> no_entity (dropWhile P s)"
  using dropWhile_drop[of P s] by (auto simp: no_entity_drop)

lemma no_entity_collapse_ws: "no_entity s \<Longrightarrow> no_entity (collapse_ws s)"
  by (induction s rule: collapse_ws.induct)
     (auto simp: no_entity_dropWhile entity_at_not_amp dest: entity_at_collapse_ws)

lemma entity_at_toLower: "entity_at (toLower c) (map toLower cs) = entity_at c cs"
  by (cases cs) (auto simp: entity_at_simps image_iff toLower_special[THEN eq_commute_iff])

lemma no_entity_toLowerCase: "no_entity (toLowerCase s) = no_entity s"
  unfolding toLowerCase_def by (induction s) (auto simp: entity_at_toLower)

lemma no_entity_trim: "no_entity s \<Longrightarrow> no_entity (trim s)"
  using trim_take_drop[of s] by (auto simp: no_entity_drop no_entity_take)


lemma entity_literal_prefix:
  assumes "entity_literal pat" "take (length pat) (c # cs) = pat"
  shows "entity_at c cs"
proof -
  from assms(1) obtain b rest where pat: "pat = CHR ''&'' # b # rest" "b \<noteq> CHR '';''" "CHR '';'' \<in> set rest"
    by (auto simp: entity_literal_def split: list.splits)
  from assms(2) pat obtain ds where "c = CHR ''&''" "cs = b # ds" "take (length rest) ds = rest"
    by (cases cs) auto
  moreover from this pat(3) have "CHR '';'' \<in> set ds" by (metis in_set_takeD)
  ultimately show ?thesis using pat by (auto simp: entity_at_simps)
qed

lemma replaceAll_id: "no_entity s \<Longrightarrow> entity_literal pat \<Longrightarrow> replaceAll pat rep s = s"
proof (induction s)
  case Nil
  then show ?case by simp
next
  case (Cons c cs)
  then have "\<not> (pat \<noteq> [] \<and> take (length pat) (c # cs) = pat)"
    by (auto dest: entity_literal_prefix)
  from replaceAll_miss[OF this] Cons show ?case by simp
qed

subsection \<open>White space\<close>

lemma ws_ok_drop: "ws_ok s \<Longrightarrow> ws_ok (drop n s)"
  by (induction s arbitrary: n) (auto simp: drop_Cons split: nat.splits)

lemma ws_ok_take: "ws_ok s \<Longrightarrow> ws_ok (take n s)"
proof (induction s arbitrary: n)
  case Nil
  then show ?case by simp
next
  case (Cons c cs)
  show ?case
  proof (cases n)
    case 0
    then show ?thesis by simp
  next
    case (Suc m)
    have "take m cs = [] \<or> hd (take m cs) = hd cs" by (cases m; cases cs) auto
    with Cons Suc show ?thesis by auto
  qed
qed

lemma hd_collapse_ws: "s \<noteq> [] \<Longrightarrow> \<not> is_space (hd s) \<Longrightarrow> collapse_ws s \<noteq> [] \<and> hd (collapse_ws s) = hd s"
  by (cases s) auto

lemma collapse_ws_Nil: "collapse_ws s = [] \<longleftrightarrow> s = []"
  by (cases s) auto

lemma ws_ok_collapse_ws: "ws_ok (collapse_ws s)"
proof (induction s rule: collapse_ws.induct)
  case 1
  then show ?case by simp
next
  case (2 c cs)
  show ?case
  proof (cases "is_space c")
    case True
    let ?r = "dropWhile is_space cs"
    have "?r = [] \<or> \<not> is_space (hd ?r)" by (metis hd_dropWhile)
    then have "collapse_ws ?r = [] \<or> \<not> is_space (hd (collapse_ws ?r))"
      by (metis hd_collapse_ws collapse_ws.simps(1))
    with 2 True show ?thesis by simp
  next
    case False
    with 2 show ?thesis by simp
  qed
qed

lemma collapse_ws_id: "ws_ok s \<Longrightarrow> collapse_ws s = s"
proof (induction s)
  case Nil
  then show ?case by simp
next
  case (Cons c cs)
  show ?case
  proof (cases "is_space c")
    case True
    with Cons.prems have "dropWhile is_space cs = cs" by (cases cs) auto
    with Cons True show ?thesis by simp
  next
    case False
    with Cons show ?thesis by simp
  qed
qed

lemma ws_ok_toLowerCase: "ws_ok s \<Longrightarrow> ws_ok (toLowerCase s)"
  unfolding toLowerCase_def
  by (induction s) (auto simp: is_space_toLower hd_map)

lemma ws_ok_trim: "ws_ok s \<Longrightarrow> ws_ok (trim s)"
  using trim_take_drop[of s] by (auto simp: ws_ok_drop ws_ok_take)

subsection \<open>Lower case and trimming\<close>

lemma toLowerCase_idem: "toLowerCase (toLowerCase s) = toLowerCase s"
  by (simp add: toLowerCase_def toLower_idem)

lemma toLowerCase_id: "\<forall>c \<in> set s. toLower c = c \<Longrightarrow> toLowerCase s = s"
  by (simp add: toLowerCase_def map_idI)

lemma lower_trim: "\<forall>c \<in> set s. toLower c = c \<Longrightarrow> \<forall>c \<in> set (trim s). toLower c = c"
  using trim_take_drop[of s] by (auto dest!: in_set_takeD in_set_dropD)

lemma lower_toLowerCase: "\<forall>c \<in> set (toLowerCase s). toLower c = c"
  by (auto simp: toLowerCase_def toLower_idem)

lemma trim_idem: "trim (trim s) = trim s"
proof -
  let ?t = "dropWhile is_space s"
  let ?u = "dropWhile is_space (rev ?t)"
  have a: "dropWhile is_space (rev ?u) = rev ?u"
  proof (cases "?u = []")
    case True
    show ?thesis unfolding True by simp
  next
    case False
    then have "rev ?u \<noteq> []" by simp
    have "\<not> is_space (hd ?u)" using False by (metis hd_dropWhile)
    have "?t \<noteq> []"
    proof
      assume "?t = []"
      then have "?u = []" by (simp only: rev.simps dropWhile.simps)
      with False show False by blast
    qed
    then have nt: "\<not> is_space (hd ?t)" by (metis hd_dropWhile)
    have "rev ?t = takeWhile is_space (rev ?t) @ ?u" by simp
    then have "?t = rev ?u @ rev (takeWhile is_space (rev ?t))" by (metis rev_append rev_rev_ident)
    then have "hd ?t = hd (rev ?u)" using \<open>rev ?u \<noteq> []\<close> by (metis hd_append2)
    with nt have "\<not> is_space (hd (rev ?u))" by simp
    with \<open>rev ?u \<noteq> []\<close> show ?thesis by (cases "rev ?u") auto
  qed
  have b: "dropWhile is_space ?u = ?u" by (simp add: dropWhile_idem)
  show ?thesis unfolding trim_def a by (simp add: b)
qed

lemma normalizeTitle_idem: "normalizeTitle (normalizeTitle s) = normalizeTitle s"
proof (cases "s = []")
  case True
  then show ?thesis by (simp add: normalizeTitle_def)
next
  case False
  define s1 where "s1 = strip_tags s"
  define s8 where "s8 = replaceAll ''&#038;'' ''&''
           (replaceAll ''&#39;'' [CHR 0x27]
           (replaceAll ''&#8216;'' [CHR 0x27]
           (replaceAll ''&#8217;'' [CHR 0x27]
           (replaceAll ''&quot;'' [CHR 0x22]
           (replaceAll ''&amp;'' ''&''
           (replaceAll ''&nbsp;'' '' '' s1))))))"
  define s9 where "s9 = remove_entities s8"
  define s10 where "s10 = collapse_ws s9"
  define t where "t = trim (toLowerCase s10)"
  have nt: "normalizeTitle s = t"
    using False by (simp add: normalizeTitle_def Let_def t_def s10_def s9_def s8_def s1_def)
  have "no_tag s1" by (simp add: s1_def no_tag_strip_tags)
  then have "no_tag s8" unfolding s8_def by (intro no_tag_replaceAll) simp_all
  then have t1: "no_tag t"
    unfolding t_def s10_def s9_def
    by (intro no_tag_trim) (simp add: no_tag_toLowerCase no_tag_collapse_ws no_tag_remove_entities)
  have "no_entity s9" by (simp add: s9_def no_entity_remove_entities)
  then have t2: "no_entity t"
    unfolding t_def s10_def
    by (intro no_entity_trim) (simp add: no_entity_toLowerCase no_entity_collapse_ws)
  have t3: "ws_ok t"
    unfolding t_def s10_def by (intro ws_ok_trim ws_ok_toLowerCase ws_ok_collapse_ws)
  have t4: "\<forall>c \<in> set t. toLower c = c"
    unfolding t_def by (intro lower_trim lower_toLowerCase)
  have t5: "trim t = t" unfolding t_def by (rule trim_idem)
  have lit: "entity_literal ''&nbsp;''" "entity_literal ''&amp;''" "entity_literal ''&quot;''"
    "entity_literal ''&#8217;''" "entity_literal ''&#8216;''" "entity_literal ''&#39;''"
    "entity_literal ''&#038;''"
    by (simp_all add: entity_literal_def)
  have "normalizeTitle t = t"
    by (simp add: normalizeTitle_def Let_def strip_tags_id[OF t1] replaceAll_id[OF t2] lit
        remove_entities_id[OF t2] collapse_ws_id[OF t3] toLowerCase_id[OF t4] t5)
  with nt show ?thesis by simp
qed

lemma normalizeTitle_example:
  "normalizeTitle ''<b>Weekend Brunch</b> &amp; More'' = ''weekend brunch & more''"
  by code_simp

lemma normalizeTitle_example2:
  "normalizeTitle ''  Hello &nbsp;&amp; <i>World</i> '' = ''hello & world''"
  by code_simp

text \<open>
  Claim C6. Title normalization is idempotent: normalizing a normalized title returns it
  unchanged, for every string; and the title \<open><b>Weekend Brunch</b> &amp; More\<close> normalizes to
  \<open>weekend brunch & more\<close>.
\<close>

theorem C6_normalizeTitle_idempotent:
  "normalizeTitle (normalizeTitle s) = normalizeTitle s
   \<and> normalizeTitle ''<b>Weekend Brunch</b> &amp; More'' = ''weekend brunch & more''"
  by (simp only: normalizeTitle_idem normalizeTitle_example)

theorem C6_witness:
  "normalizeTitle ''hello & world'' = ''hello & world''"
  using C6_normalizeTitle_idempotent [of "''  Hello &nbsp;&amp; <i>World</i> ''"]
  by (simp only: normalizeTitle_example2)

section \<open>Traces of the operations\<close>

lemma requests_simps [simp]:
  "requests [] = []"
  "requests (Sleep ms # tr) = requests tr"
  "requests (Returned req # tr) = req # requests tr"
  "requests (Threw req # tr) = req # requests tr"
  by (simp_all add: requests_def request_of_def List.map_filter_simps)

lemma requests_append [simp]: "requests (tr @ tr') = requests tr @ requests tr'"
  by (simp add: requests_def List.map_filter_def)

lemma post_writes_append [simp]: "post_writes (tr @ tr') = post_writes tr @ post_writes tr'"
  by (simp add: post_writes_def)

lemma extends_by_refl [simp]: "extends_by Q w w"
  by (simp add: extends_by_def)

lemma extends_by_trans: "extends_by Q w w1 \<Longrightarrow> extends_by Q w1 w2 \<Longrightarrow> extends_by Q w w2"
  by (auto simp: extends_by_def)

lemma extends_by_mono: "extends_by Q w w' \<Longrightarrow> (\<And>req. Q req \<Longrightarrow> Q' req) \<Longrightarrow> extends_by Q' w w'"
  by (auto simp: extends_by_def list_all_iff)

lemma extends_by_sleep [simp]: "extends_by Q w (sleep ms w)"
  by (simp add: extends_by_def sleep_def)

lemma extends_by_call: "Q req \<Longrightarrow> extends_by Q w (snd (call f req w))"
  by (auto simp: extends_by_def call_def split: prod.splits sum.splits)

lemma extends_by_call': "call f req w = (r, w') \<Longrightarrow> Q req \<Longrightarrow> extends_by Q w w'"
  using extends_by_call[of Q req w f] by simp

lemma getOrCreateTerm_extends:
  "getOrCreateTerm apiInstance name taxonomy delayMs w = (x, w') \<Longrightarrow> extends_by is_aux_request w w'"
  unfolding getOrCreateTerm_def Let_def call_def sleep_def extends_by_def
  by (auto split: prod.splits sum.splits option.splits if_splits simp: is_aux_request_def)

lemma resolveTerms_loop_extends:
  "resolveTerms_loop apiInstance names taxonomy delayMs termIds w = (x, w') \<Longrightarrow>
   extends_by is_aux_request w w'"
proof (induction names arbitrary: termIds w)
  case Nil
  then show ?case by simp
next
  case (Cons name names)
  obtain i w1 where g: "getOrCreateTerm apiInstance name taxonomy delayMs w = (i, w1)"
    by (meson surj_pair)
  have e1: "extends_by is_aux_request w (sleep delayMs w1)"
    using getOrCreateTerm_extends[OF g] by (auto intro: extends_by_trans)
  from Cons.prems g obtain acc where
    "resolveTerms_loop apiInstance names taxonomy delayMs acc (sleep delayMs w1) = (x, w')"
    by (auto split: option.splits)
  from Cons.IH[OF this] e1 show ?case by (rule extends_by_trans[rotated])
qed

lemma resolveTerms_extends:
  "resolveTerms apiInstance termString taxonomy delayMs w = (x, w') \<Longrightarrow>
   extends_by is_aux_request w w'"
  by (auto simp: resolveTerms_def split: if_splits dest: resolveTerms_loop_extends)

lemma resolve_categories_extends:
  "resolve_categories apiInstance cfg r postData w = (x, w') \<Longrightarrow> extends_by is_aux_request w w'"
  by (auto simp: resolve_categories_def split: option.splits prod.splits if_splits
      dest: resolveTerms_extends)

lemma resolve_tags_extends:
  "resolve_tags apiInstance cfg r postData w = (x, w') \<Longrightarrow> extends_by is_aux_request w w'"
  by (auto simp: resolve_tags_def split: option.splits prod.splits if_splits
      dest: resolveTerms_extends)

lemma downloadImageFromUrl_extends:
  "downloadImageFromUrl h apiInstance imageUrl w = (x, w') \<Longrightarrow> extends_by is_aux_request w w'"
  unfolding downloadImageFromUrl_def call_def extends_by_def
  by (auto split: prod.splits sum.splits option.splits simp: is_aux_request_def)

lemma post_media_file_extends:
  "post_media_file apiInstance delayMs b m f w = (x, w') \<Longrightarrow> extends_by is_aux_request w w'"
  unfolding post_media_file_def call_def sleep_def extends_by_def
  by (auto split: prod.splits sum.splits option.splits simp: is_aux_request_def)

lemma uploadMedia_extends:
  "uploadMedia h apiInstance filePathOrUrl delayMs w = (x, w') \<Longrightarrow> extends_by is_aux_request w w'"
  unfolding uploadMedia_def Let_def
  by (auto split: prod.splits sum.splits option.splits if_splits
      dest!: downloadImageFromUrl_extends post_media_file_extends intro: extends_by_trans)

lemma upload_featured_image_extends:
  "upload_featured_image h apiInstance cfg r postData w = (x, w') \<Longrightarrow>
   extends_by is_aux_request w w'"
  by (auto simp: upload_featured_image_def Let_def split: prod.splits sum.splits if_splits
      dest!: uploadMedia_extends)

lemma prepare_row_extends:
  "prepare_row h apiInstance cfg r w = (x, w') \<Longrightarrow> extends_by is_aux_request w w'"
  by (auto simp: prepare_row_def split: prod.splits sum.splits
      dest!: resolve_categories_extends resolve_tags_extends upload_featured_image_extends
      intro: extends_by_trans)


section \<open>The duplicate scan\<close>

lemma call_cases:
  obtains (Threw) e s' where "f (fst w) = (Inl e, s')" "call f req w = (Inl e, (s', snd w @ [Threw req]))"
  | (Returned) v s' where "f (fst w) = (Inr v, s')" "call f req w = (Inr v, (s', snd w @ [Returned req]))"
  by (cases "f (fst w)"; cases "fst (f (fst w))") (auto simp: call_def)

lemma scan_pages_unfold:
  "scan_pages apiInstance t page w =
     (case call (get_posts_page apiInstance page) (GetPostsPage page) w of
        (reply, w1) \<Rightarrow>
          if page_continues t reply \<and> page + 1 \<le> 10
          then scan_pages apiInstance t (page + 1) w1
          else (page_outcome t reply, w1))"
  by (subst scan_pages.simps)
     (auto simp: page_continues_def page_outcome_def split: prod.splits sum.splits option.splits)

lemma scan_pages_stop:
  assumes "call (get_posts_page apiInstance page) (GetPostsPage page) w = (reply, w1)"
    and "\<not> (page_continues t reply \<and> page + 1 \<le> 10)"
  shows "scan_pages apiInstance t page w = (page_outcome t reply, w1)"
  using assms by (subst scan_pages_unfold) auto

lemma scan_pages_continue:
  assumes "call (get_posts_page apiInstance page) (GetPostsPage page) w = (reply, w1)"
    and "page_continues t reply" "page + 1 \<le> 10"
  shows "scan_pages apiInstance t page w = scan_pages apiInstance t (page + 1) w1"
  using assms by (subst scan_pages_unfold) auto

lemma page_continues_Inl [simp]: "\<not> page_continues t (Inl e)"
  by (simp add: page_continues_def)

lemma page_outcome_Inl [simp]: "page_outcome t (Inl e) = Inl e"
  by (simp add: page_outcome_def)

lemma scan_pages_trace:
  assumes "page \<le> 10" "scan_pages apiInstance t page w = (r, w')"
  shows "\<exists>k tr. page \<le> k \<and> k \<le> 10 \<and> snd w' = snd w @ tr
           \<and> requests tr = map GetPostsPage [page..<Suc k]
           \<and> (list_ex threw tr \<longrightarrow> isl r)"
  using assms
proof (induction "10 - page" arbitrary: page w)
  case 0
  then have p: "page = 10" by simp
  show ?case
  proof (cases rule: call_cases[of "get_posts_page apiInstance page" w "GetPostsPage page"])
    case (Threw e s')
    from scan_pages_stop[OF Threw(2), of t] "0.prems"(2)
    have "r = Inl e" "w' = (s', snd w @ [Threw (GetPostsPage page)])" by simp_all
    then show ?thesis using p
      by (intro exI[of _ 10] exI[of _ "[Threw (GetPostsPage page)]"]) simp
  next
    case (Returned v s')
    from scan_pages_stop[OF Returned(2), of t] "0.prems"(2) p
    have "w' = (s', snd w @ [Returned (GetPostsPage page)])" by simp
    then show ?thesis using p
      by (intro exI[of _ 10] exI[of _ "[Returned (GetPostsPage page)]"]) (simp add: threw_def)
  qed
next
  case (Suc n)
  then have p: "page < 10" by simp
  show ?case
  proof (cases rule: call_cases[of "get_posts_page apiInstance page" w "GetPostsPage page"])
    case (Threw e s')
    from scan_pages_stop[OF Threw(2), of t] Suc.prems(2)
    have "r = Inl e" "w' = (s', snd w @ [Threw (GetPostsPage page)])" by simp_all
    then show ?thesis using p
      by (intro exI[of _ page] exI[of _ "[Threw (GetPostsPage page)]"]) simp
  next
    case (Returned v s')
    show ?thesis
    proof (cases "page_continues t (Inr v)")
      case False
      from scan_pages_stop[OF Returned(2), of t] False Suc.prems(2)
      have "w' = (s', snd w @ [Returned (GetPostsPage page)])" by simp
      then show ?thesis using p
        by (intro exI[of _ page] exI[of _ "[Returned (GetPostsPage page)]"]) (simp add: threw_def)
    next
      case True
      let ?w1 = "(s', snd w @ [Returned (GetPostsPage page)])"
      from scan_pages_continue[OF Returned(2) True] Suc.prems(2) p
      have rec: "scan_pages apiInstance t (page + 1) ?w1 = (r, w')" by simp
      have "n = 10 - (page + 1)" using Suc.hyps(2) by simp
      from Suc.hyps(1)[OF this _ rec] p obtain k tr where
        k: "page + 1 \<le> k" "k \<le> 10" "snd w' = snd ?w1 @ tr"
           "requests tr = map GetPostsPage [page + 1..<Suc k]" "list_ex threw tr \<longrightarrow> isl r"
        by auto
      have "[page..<Suc k] = page # [page + 1..<Suc k]" using k(1) by (simp add: upt_conv_Cons)
      with k show ?thesis
        by (intro exI[of _ k] exI[of _ "Returned (GetPostsPage page) # tr"]) (simp add: threw_def)
    qed
  qed
qed

lemma findPostByTitle_trace:
  assumes "findPostByTitle apiInstance title w = (x, w')"
  shows "\<exists>k tr. k \<le> 10 \<and> snd w' = snd w @ tr
           \<and> requests tr = map GetPostsPage [1..<Suc k]
           \<and> (list_ex threw tr \<longrightarrow> x = None)"
proof (cases "title = [] \<or> trim title = []")
  case True
  with assms have "w' = w" by (simp add: findPostByTitle_def)
  then show ?thesis by (intro exI[of _ 0] exI[of _ "[]"]) simp
next
  case False
  obtain r w1 where s: "scan_pages apiInstance (normalizeTitle title) 1 w = (r, w1)"
    by (meson surj_pair)
  with False assms have w: "w' = w1" and x: "isl r \<longrightarrow> x = None"
    by (auto simp: findPostByTitle_def split: sum.splits)
  from scan_pages_trace[OF _ s] obtain k tr where
    "1 \<le> k" "k \<le> 10" "snd w1 = snd w @ tr" "requests tr = map GetPostsPage [1..<Suc k]"
    "list_ex threw tr \<longrightarrow> isl r"
    by auto
  with w x show ?thesis by (intro exI[of _ k] exI[of _ tr]) auto
qed

lemma call_page_reply:
  assumes "1 \<le> p" "fst w = state_after apiInstance s (p - 1)"
  shows "call (get_posts_page apiInstance p) (GetPostsPage p) w =
           (page_reply apiInstance s p,
            (state_after apiInstance s p, snd w @ [page_event (page_reply apiInstance s) p]))"
proof -
  from assms(1) obtain n where n: "p = Suc n" by (cases p) auto
  show ?thesis
  proof (cases rule: call_cases[of "get_posts_page apiInstance p" w "GetPostsPage p"])
    case (Threw e s')
    with assms(2) n show ?thesis by (simp add: page_reply_def page_event_def)
  next
    case (Returned v s')
    with assms(2) n show ?thesis by (simp add: page_reply_def page_event_def)
  qed
qed

lemma scan_pages_run:
  assumes "1 \<le> start" "start \<le> stop" "stop \<le> 10"
    and "fst w = state_after apiInstance s (start - 1)"
    and "\<And>q. start \<le> q \<Longrightarrow> q < stop \<Longrightarrow> page_continues t (page_reply apiInstance s q)"
    and "\<not> page_continues t (page_reply apiInstance s stop) \<or> stop = 10"
  shows "scan_pages apiInstance t start w =
           (page_outcome t (page_reply apiInstance s stop),
            (state_after apiInstance s stop,
             snd w @ map (page_event (page_reply apiInstance s)) [start..<Suc stop]))"
  using assms
proof (induction "stop - start" arbitrary: start w)
  case 0
  then have eq: "start = stop" by simp
  note c = call_page_reply[OF "0.prems"(1) "0.prems"(4)]
  from "0.prems"(6) "0.prems"(3) eq
  have "\<not> (page_continues t (page_reply apiInstance s start) \<and> start + 1 \<le> 10)" by auto
  from scan_pages_stop[OF c this] eq show ?case by simp
next
  case (Suc n)
  then have lt: "start < stop" by simp
  note c = call_page_reply[OF Suc.prems(1) Suc.prems(4)]
  have cont: "page_continues t (page_reply apiInstance s start)" using Suc.prems(5)[of start] lt by simp
  let ?w1 = "(state_after apiInstance s start, snd w @ [page_event (page_reply apiInstance s) start])"
  have step: "scan_pages apiInstance t start w = scan_pages apiInstance t (start + 1) ?w1"
    using scan_pages_continue[OF c cont] lt Suc.prems(3) by simp
  have n: "n = stop - (start + 1)" using Suc.hyps(2) by simp
  have ih: "scan_pages apiInstance t (start + 1) ?w1 =
           (page_outcome t (page_reply apiInstance s stop),
            (state_after apiInstance s stop,
             snd ?w1 @ map (page_event (page_reply apiInstance s)) [start + 1..<Suc stop]))"
    using Suc.prems lt by (intro Suc.hyps(1)[OF n]) auto
  have "[start..<Suc stop] = start # [start + 1..<Suc stop]" using lt by (simp add: upt_conv_Cons)
  with ih step show ?case by simp
qed

lemma findPostByTitle_run:
  assumes "title \<noteq> []" "trim title \<noteq> []" "1 \<le> stop" "stop \<le> 10"
    and "\<And>q. 1 \<le> q \<Longrightarrow> q < stop \<Longrightarrow>
            page_continues (normalizeTitle title) (page_reply apiInstance (fst w) q)"
    and "\<not> page_continues (normalizeTitle title) (page_reply apiInstance (fst w) stop) \<or> stop = 10"
  shows "findPostByTitle apiInstance title w =
           ((case page_outcome (normalizeTitle title) (page_reply apiInstance (fst w) stop) of
               Inl error \<Rightarrow> None | Inr found \<Rightarrow> found),
            (state_after apiInstance (fst w) stop,
             snd w @ map (page_event (page_reply apiInstance (fst w))) [1..<Suc stop]))"
proof -
  have "scan_pages apiInstance (normalizeTitle title) 1 w =
           (page_outcome (normalizeTitle title) (page_reply apiInstance (fst w) stop),
            (state_after apiInstance (fst w) stop,
             snd w @ map (page_event (page_reply apiInstance (fst w))) [1..<Suc stop]))"
    using assms by (intro scan_pages_run) auto
  with assms(1,2) show ?thesis by (simp add: findPostByTitle_def split: sum.splits)
qed

section \<open>Validation of a row\<close>

lemma prepare_row_invalid:
  "blank (row_title r) \<or> blank (row_content r) \<Longrightarrow>
   prepare_row h apiInstance cfg r w =
     (Inl (Error (if blank (row_title r) then ''Missing required field: title''
                  else ''Missing required field: content'')), w)"
  by (auto simp: prepare_row_def validate_row_def)

lemma error_text_Error: "error_text (Error msg) = msg"
  by (simp add: error_text_def Error_def)

text \<open>
  Claim C4. A row whose title or content is absent or blank (empty after trimming) fails with
  the missing-field message of the first missing field, with no action, and the world is
  unchanged: no remote call is made and nothing is added to the trace.
\<close>

theorem C4_missing_field_fails_without_calls:
  assumes "blank (row_title r) \<or> blank (row_content r)"
  shows "createOrUpdatePost h apiInstance cfg r n w =
     (\<lparr>rowNumber = n,
       res_title = (case row_title r of Some t \<Rightarrow> (if t \<noteq> [] then t else ''Untitled'')
                    | None \<Rightarrow> ''Untitled''),
       res_action = None, postId = None, res_status = None,
       res_error = Some (if blank (row_title r) then ''Missing required field: title''
                         else ''Missing required field: content'')\<rparr>, w)"
  using assms
  by (simp add: createOrUpdatePost_def try_block_def prepare_row_invalid error_text_Error)

theorem C4_witness:
  "createOrUpdatePost example_host memory_site example_config (simple_row ''A title'' ''   '') 7
     (empty_site, []) =
     (\<lparr>rowNumber = 7, res_title = ''A title'', res_action = None, postId = None,
       res_status = None, res_error = Some ''Missing required field: content''\<rparr>,
      (empty_site, []))
   \<and> createOrUpdatePost example_host memory_site example_config empty_row 8 (empty_site, []) =
     (\<lparr>rowNumber = 8, res_title = ''Untitled'', res_action = None, postId = None,
       res_status = None, res_error = Some ''Missing required field: title''\<rparr>,
      (empty_site, []))"
proof -
  have b1: "blank (row_title (simple_row ''A title'' ''   '')) \<or> blank (row_content (simple_row ''A title'' ''   ''))"
    by code_simp
  have b2: "blank (row_title empty_row) \<or> blank (row_content empty_row)"
    by code_simp
  have t1: "blank (Some ''A title'') = False" by code_simp
  have t2: "blank None = True" by code_simp
  show ?thesis
    using C4_missing_field_fails_without_calls [OF b1, of example_host memory_site example_config 7 "(empty_site, [])"]
          C4_missing_field_fails_without_calls [OF b2, of example_host memory_site example_config 8 "(empty_site, [])"]
    by (simp add: t1 t2 simple_row_def empty_row_def)
qed

section \<open>Termination and bound of the duplicate scan\<close>

lemma requests_page_events [simp]:
  "requests (map (page_event pages) ps) = map GetPostsPage ps"
  by (induction ps) (auto simp: page_event_def)

lemma state_after_memory_site [simp]: "state_after memory_site s n = s"
  by (induction n) (simp_all add: memory_site_def)

lemma page_reply_memory_site:
  "page_reply memory_site s p = Inr (take 100 (drop (100 * (p - 1)) (site_posts s)))"
  by (simp add: page_reply_def) (simp add: memory_site_def)

lemma check_page_no_match:
  "(\<And>x. x \<in> set ps \<Longrightarrow> \<exists>t'. postTitleNormalized x = Inr t' \<and> t' \<noteq> t) \<Longrightarrow>
   check_page t ps = Inr None"
proof (induction ps)
  case Nil
  then show ?case by simp
next
  case (Cons a ps)
  from Cons.prems[of a] obtain t' where "postTitleNormalized a = Inr t'" "t' \<noteq> t" by auto
  moreover have "check_page t ps = Inr None" using Cons.prems by (intro Cons.IH) auto
  ultimately show ?case by simp
qed

text \<open>
  Claim C5. The duplicate scan terminates on every input: findPostByTitle is a total function,
  and the calls it makes are the listings of pages 1 to \<open>k\<close>, in this order, for some \<open>k\<close> of at
  most 10. When the scan reaches a page (every earlier page was a full page without a match),
  it stops there with the identifier found if the page holds a match, it stops there with
  no duplicate if the page holds no match and fewer than 100 posts, and at page 10 it stops
  with no duplicate even when the page is full and holds no match.
\<close>

theorem C5_duplicate_scan_terminates:
  "(\<exists>k. k \<le> 10 \<and> scan_calls apiInstance title w = map GetPostsPage [1..<Suc k])
   \<and> (\<forall>stop response found.
        title \<noteq> [] \<and> trim title \<noteq> [] \<and> 1 \<le> stop \<and> stop \<le> 10
        \<and> (\<forall>q. 1 \<le> q \<and> q < stop \<longrightarrow>
               page_continues (normalizeTitle title) (page_reply apiInstance (fst w) q))
        \<longrightarrow>
          (page_reply apiInstance (fst w) stop = Inr response
           \<and> check_page (normalizeTitle title) response = Inr (Some found)
           \<longrightarrow> fst (findPostByTitle apiInstance title w) = Some found
               \<and> scan_calls apiInstance title w = map GetPostsPage [1..<Suc stop])
        \<and> (page_reply apiInstance (fst w) stop = Inr response
           \<and> check_page (normalizeTitle title) response = Inr None
           \<and> length response < 100
           \<longrightarrow> fst (findPostByTitle apiInstance title w) = None
               \<and> scan_calls apiInstance title w = map GetPostsPage [1..<Suc stop])
        \<and> (stop = 10 \<and> page_continues (normalizeTitle title) (page_reply apiInstance (fst w) 10)
           \<longrightarrow> fst (findPostByTitle apiInstance title w) = None
               \<and> scan_calls apiInstance title w = map GetPostsPage [1..<11]))"
proof (intro conjI allI impI)
  obtain x w' where f: "findPostByTitle apiInstance title w = (x, w')" by (meson surj_pair)
  from findPostByTitle_trace[OF f] obtain k tr where
    "k \<le> 10" "snd w' = snd w @ tr" "requests tr = map GetPostsPage [1..<Suc k]" by blast
  with f show "\<exists>k. k \<le> 10 \<and> scan_calls apiInstance title w = map GetPostsPage [1..<Suc k]"
    by (auto simp: scan_calls_def)
next
  fix stop response found
  assume a: "title \<noteq> [] \<and> trim title \<noteq> [] \<and> 1 \<le> stop \<and> stop \<le> 10
        \<and> (\<forall>q. 1 \<le> q \<and> q < stop \<longrightarrow>
               page_continues (normalizeTitle title) (page_reply apiInstance (fst w) q))"
  {
    assume b: "page_reply apiInstance (fst w) stop = Inr response
           \<and> check_page (normalizeTitle title) response = Inr (Some found)"
    then have nc: "\<not> page_continues (normalizeTitle title) (page_reply apiInstance (fst w) stop)"
      by (simp add: page_continues_def)
    have po: "page_outcome (normalizeTitle title) (page_reply apiInstance (fst w) stop) = Inr (Some found)"
      using b by (auto simp: page_outcome_def)
    have "findPostByTitle apiInstance title w =
           (Some found, (state_after apiInstance (fst w) stop,
             snd w @ map (page_event (page_reply apiInstance (fst w))) [1..<Suc stop]))"
      using a nc by (subst findPostByTitle_run[where stop = stop]) (auto simp: po)
    then show "fst (findPostByTitle apiInstance title w) = Some found"
      and "scan_calls apiInstance title w = map GetPostsPage [1..<Suc stop]"
      by (simp_all add: scan_calls_def)
  }
  {
    assume b: "page_reply apiInstance (fst w) stop = Inr response
           \<and> check_page (normalizeTitle title) response = Inr None
           \<and> length response < 100"
    then have nc: "\<not> page_continues (normalizeTitle title) (page_reply apiInstance (fst w) stop)"
      by (simp add: page_continues_def perPage_def)
    have po: "page_outcome (normalizeTitle title) (page_reply apiInstance (fst w) stop) = Inr None"
      using b by (auto simp: page_outcome_def)
    have "findPostByTitle apiInstance title w =
           (None, (state_after apiInstance (fst w) stop,
             snd w @ map (page_event (page_reply apiInstance (fst w))) [1..<Suc stop]))"
      using a nc by (subst findPostByTitle_run[where stop = stop]) (auto simp: po)
    then show "fst (findPostByTitle apiInstance title w) = None"
      and "scan_calls apiInstance title w = map GetPostsPage [1..<Suc stop]"
      by (simp_all add: scan_calls_def)
  }
  {
    assume b: "stop = 10 \<and> page_continues (normalizeTitle title) (page_reply apiInstance (fst w) 10)"
    then have po: "page_outcome (normalizeTitle title) (page_reply apiInstance (fst w) stop) = Inr None"
      by (auto simp: page_outcome_def page_continues_def split: sum.splits)
    have "findPostByTitle apiInstance title w =
           (None, (state_after apiInstance (fst w) stop,
             snd w @ map (page_event (page_reply apiInstance (fst w))) [1..<Suc stop]))"
      using a b by (subst findPostByTitle_run[where stop = stop]) (auto simp: po[unfolded conjunct1[OF b]])
    with b show "fst (findPostByTitle apiInstance title w) = None"
      and "scan_calls apiInstance title w = map GetPostsPage [1..<11]"
      by (simp_all add: scan_calls_def)
  }
qed

lemma postTitleNormalized_published:
  "t \<noteq> [] \<Longrightarrow> postTitleNormalized (published i t) = Inr (normalizeTitle t)"
  by (simp add: postTitleNormalized_def published_def postTitleRaw_def or_else_def)

lemma normalizeTitle_other_news: "normalizeTitle ''Other news'' = ''other news''"
  by code_simp

lemma normalizeTitle_weekend_brunch: "normalizeTitle ''Weekend Brunch'' = ''weekend brunch''"
  by code_simp

lemma length_older_posts [simp]: "length (older_posts n) = n"
  by (simp add: older_posts_def)

lemma set_older_posts: "x \<in> set (older_posts n) \<Longrightarrow> \<exists>i. x = published i ''Other news''"
  by (auto simp: older_posts_def)

lemma take_drop_append: "k + n \<le> length A \<Longrightarrow> take n (drop k (A @ B)) = take n (drop k A)"
  by simp

lemma site_posts_crowded:
  "site_posts crowded_site = older_posts 1000 @ [published 1 ''Weekend Brunch'']"
  by (simp add: crowded_site_def)

lemma crowded_page:
  assumes "1 \<le> q" "q \<le> 10"
  shows "page_reply memory_site crowded_site q =
    Inr (take 100 (drop (100 * (q - 1)) (older_posts 1000)))"
proof -
  have "100 * (q - 1) + 100 \<le> length (older_posts 1000)" using assms by simp
  from take_drop_append[OF this, of "[published 1 ''Weekend Brunch'']"]
  have "take 100 (drop (100 * (q - 1)) (site_posts crowded_site)) =
        take 100 (drop (100 * (q - 1)) (older_posts 1000))"
    by (simp only: site_posts_crowded)
  then show ?thesis by (simp only: page_reply_memory_site)
qed

lemma crowded_page_continues:
  assumes "1 \<le> q" "q \<le> 10"
  shows "page_continues (normalizeTitle ''Weekend Brunch'') (page_reply memory_site crowded_site q)"
proof -
  let ?page = "take 100 (drop (100 * (q - 1)) (older_posts 1000))"
  have l: "100 * (q - 1) + 100 \<le> 1000" using assms by simp
  have "check_page (normalizeTitle ''Weekend Brunch'') ?page = Inr None"
  proof (rule check_page_no_match)
    fix x assume "x \<in> set ?page"
    then have "x \<in> set (older_posts 1000)" by (meson in_set_takeD in_set_dropD)
    then obtain i where "x = published i ''Other news''" using set_older_posts by blast
    then show "\<exists>t'. postTitleNormalized x = Inr t' \<and> t' \<noteq> normalizeTitle ''Weekend Brunch''"
      by (simp add: postTitleNormalized_published normalizeTitle_other_news normalizeTitle_weekend_brunch)
  qed
  moreover have len: "length ?page = 100" using l by simp
  moreover from len have "?page \<noteq> []" by (metis length_0_conv zero_neq_numeral)
  ultimately show ?thesis
    by (simp add: crowded_page[OF assms] page_continues_def perPage_def)
qed

lemma crowded_page_11:
  "page_reply memory_site crowded_site 11 = Inr [published 1 ''Weekend Brunch'']"
  by (simp add: page_reply_memory_site site_posts_crowded)

lemma small_site_page_1:
  "page_reply memory_site small_site 1 =
     Inr [published 8 ''Other news'', published 7 ''Weekend <em>Brunch</em>'']"
  by (simp add: page_reply_memory_site small_site_def empty_site_def)

lemma small_site_check:
  "check_page (normalizeTitle '' weekend  BRUNCH'')
     [published 8 ''Other news'', published 7 ''Weekend <em>Brunch</em>''] = Inr (Some 7)"
  by code_simp

lemma trim_examples: "trim ''Weekend Brunch'' \<noteq> []" "trim '' weekend  BRUNCH'' \<noteq> []"
  by code_simp+

lemma small_site_no_match:
  "check_page (normalizeTitle ''Fresh title'')
     [published 8 ''Other news'', published 7 ''Weekend <em>Brunch</em>''] = Inr None"
  by code_simp

lemma trim_fresh_title: "trim ''Fresh title'' \<noteq> []"
  by code_simp

theorem C5_witness:
  "fst (findPostByTitle memory_site ''Weekend Brunch'' (crowded_site, [])) = None
   \<and> scan_calls memory_site ''Weekend Brunch'' (crowded_site, []) = map GetPostsPage [1..<11]
   \<and> page_reply memory_site crowded_site 11 = Inr [published 1 ''Weekend Brunch'']
   \<and> fst (findPostByTitle memory_site '' weekend  BRUNCH'' (small_site, [])) = Some 7
   \<and> scan_calls memory_site '' weekend  BRUNCH'' (small_site, []) = [GetPostsPage 1]
   \<and> fst (findPostByTitle memory_site ''Fresh title'' (small_site, [])) = None
   \<and> scan_calls memory_site ''Fresh title'' (small_site, []) = [GetPostsPage 1]"
proof -
  have a: "fst (findPostByTitle memory_site ''Weekend Brunch'' (crowded_site, [])) = None
      \<and> scan_calls memory_site ''Weekend Brunch'' (crowded_site, []) = map GetPostsPage [1..<11]"
    using C5_duplicate_scan_terminates [of memory_site "''Weekend Brunch''" "(crowded_site, [])",
            THEN conjunct2, THEN spec, THEN spec, THEN spec, of 10]
          crowded_page_continues trim_examples(1)
    by simp
  have b: "fst (findPostByTitle memory_site '' weekend  BRUNCH'' (small_site, [])) = Some 7
      \<and> scan_calls memory_site '' weekend  BRUNCH'' (small_site, []) = map GetPostsPage [1..<Suc 1]"
    using C5_duplicate_scan_terminates [of memory_site "'' weekend  BRUNCH''" "(small_site, [])",
            THEN conjunct2, THEN spec, THEN spec, THEN spec,
            of 1 "[published 8 ''Other news'', published 7 ''Weekend <em>Brunch</em>'']" 7]
          small_site_page_1 small_site_check trim_examples(2)
    by simp
  have c: "fst (findPostByTitle memory_site ''Fresh title'' (small_site, [])) = None
      \<and> scan_calls memory_site ''Fresh title'' (small_site, []) = map GetPostsPage [1..<Suc 1]"
    using C5_duplicate_scan_terminates [of memory_site "''Fresh title''" "(small_site, [])",
            THEN conjunct2, THEN spec, THEN spec, THEN spec,
            of 1 "[published 8 ''Other news'', published 7 ''Weekend <em>Brunch</em>'']" 0]
          small_site_page_1 small_site_no_match trim_fresh_title
    by simp
  from a b c crowded_page_11 show ?thesis by simp
qed
section \<open>Duplicate titles\<close>

lemma post_writes_extends_aux:
  assumes "extends_by is_aux_request w w'"
  shows "post_writes (snd w') = post_writes (snd w)"
proof -
  from assms obtain tr where tr: "snd w' = snd w @ tr" "list_all is_aux_request (requests tr)"
    by (auto simp: extends_by_def)
  have "filter is_post_write rs = []" if "list_all is_aux_request rs" for rs
    using that by (induction rs) (auto simp: is_aux_request_def is_post_write_def split: request.splits)
  with tr show ?thesis by (simp add: post_writes_def)
qed

lemma post_writes_page_events [simp]: "post_writes (map (page_event pages) ps) = []"
  by (simp add: post_writes_def is_post_write_def)

lemma resolve_categories_fields:
  "resolve_categories apiInstance cfg r postData w = (postData', w') \<Longrightarrow>
   pd_title postData' = pd_title postData \<and> pd_slug postData' = pd_slug postData"
  by (auto simp: resolve_categories_def split: option.splits prod.splits if_splits)

lemma resolve_tags_fields:
  "resolve_tags apiInstance cfg r postData w = (postData', w') \<Longrightarrow>
   pd_title postData' = pd_title postData \<and> pd_slug postData' = pd_slug postData"
  by (auto simp: resolve_tags_def split: option.splits prod.splits if_splits)

lemma upload_featured_image_fields:
  "upload_featured_image h apiInstance cfg r postData w = (Inr postData', w') \<Longrightarrow>
   pd_title postData' = pd_title postData \<and> pd_slug postData' = pd_slug postData"
  by (auto simp: upload_featured_image_def Let_def split: option.splits prod.splits sum.splits if_splits)

lemma blank_opt_trim: "\<not> blank x \<Longrightarrow> opt_trim x \<noteq> []"
  by (auto simp: blank_def opt_trim_def split: option.splits)

lemma prepare_row_Inr:
  assumes "prepare_row h apiInstance cfg r w = (Inr postData, w1)"
  shows "\<not> blank (row_title r)" "\<not> blank (row_content r)"
    "pd_title postData = opt_trim (row_title r)" "pd_title postData \<noteq> []"
    "pd_slug postData = (if opt_trim (row_slug r) \<noteq> [] then Some (opt_trim (row_slug r)) else None)"
proof -
  from assms show v: "\<not> blank (row_title r)" "\<not> blank (row_content r)"
    by (auto simp: prepare_row_def validate_row_def split: if_splits)
  from assms v obtain pd1 w' pd2 w'' where
    a: "resolve_categories apiInstance cfg r (build_post_data h cfg r) w = (pd1, w')"
    and b: "resolve_tags apiInstance cfg r pd1 w' = (pd2, w'')"
    and c: "upload_featured_image h apiInstance cfg r pd2 w'' = (Inr postData, w1)"
    by (auto simp: prepare_row_def validate_row_def split: prod.splits)
  from resolve_categories_fields[OF a] resolve_tags_fields[OF b] upload_featured_image_fields[OF c]
  have "pd_title postData = pd_title (build_post_data h cfg r)"
    "pd_slug postData = pd_slug (build_post_data h cfg r)" by simp_all
  then show "pd_title postData = opt_trim (row_title r)"
    "pd_slug postData = (if opt_trim (row_slug r) \<noteq> [] then Some (opt_trim (row_slug r)) else None)"
    by (simp_all add: build_post_data_def)
  with v show "pd_title postData \<noteq> []" by (simp add: blank_opt_trim)
qed

lemma trim_Nil [simp]: "trim [] = []"
  by (simp add: trim_def)

lemma trim_opt_trim: "trim (opt_trim x) = opt_trim x"
  by (cases x) (simp_all add: opt_trim_def trim_idem)

lemma createOrUpdatePost_prepared:
  assumes "prepare_row h apiInstance cfg r w = (Inr postData, w1)"
  shows "createOrUpdatePost h apiInstance cfg r n w =
     (case check_then_write apiInstance cfg postData w1 of
        (Inl error, w2) \<Rightarrow> (failed_result r n (error_text error), w2)
      | (Inr (act, response), w2) \<Rightarrow> (written_result r n act response, w2))"
  using assms
  by (auto simp: createOrUpdatePost_def try_block_def failed_result_def written_result_def
      split: prod.splits sum.splits)












section \<open>Update or create\<close>

lemma call_eq:
  "call f req w = (fst (f (fst w)), (snd (f (fst w)), snd w @ [call_event req (fst (f (fst w)))]))"
  by (cases "f (fst w)"; cases "fst (f (fst w))") (auto simp: call_def call_event_def)

lemma write_post_update:
  assumes "i \<noteq> 0"
  shows "write_post apiInstance cfg postData (Some i) w =
     ((case fst (post_posts_id apiInstance i postData (fst w)) of
         Inl error \<Rightarrow> Inl error | Inr response \<Rightarrow> Inr (Updated, response)),
      (snd (post_posts_id apiInstance i postData (fst w)),
       snd w @ [Sleep (REQUEST_DELAY_MS cfg),
                call_event (PostPostsId i postData) (fst (post_posts_id apiInstance i postData (fst w)))]))"
  using assms
  by (auto simp: write_post_def id_truthy_def call_eq sleep_def split: prod.splits sum.splits)

lemma write_post_create:
  assumes "\<not> id_truthy existingPostId"
  shows "write_post apiInstance cfg postData existingPostId w =
     ((case fst (post_posts apiInstance postData (fst w)) of
         Inl error \<Rightarrow> Inl error | Inr response \<Rightarrow> Inr (Created, response)),
      (snd (post_posts apiInstance postData (fst w)),
       snd w @ [Sleep (REQUEST_DELAY_MS cfg),
                call_event (PostPosts postData) (fst (post_posts apiInstance postData (fst w)))]))"
  using assms
  by (auto simp: write_post_def call_eq sleep_def split: prod.splits sum.splits)


lemma post_writes_Sleep [simp]: "post_writes (Sleep ms # tr) = post_writes tr"
  by (simp add: post_writes_def)

lemma post_writes_Cons_call_event [simp]:
  "post_writes (call_event req reply # tr) = (if is_post_write req then req # post_writes tr else post_writes tr)"
  by (auto simp: post_writes_def call_event_def split: sum.splits)

lemma post_writes_Nil [simp]: "post_writes [] = []"
  by (simp add: post_writes_def)

lemma is_post_write_simps [simp]:
  "is_post_write (PostPosts body)" "is_post_write (PostPostsId i body)"
  "\<not> is_post_write (GetPostsSlug slug)" "\<not> is_post_write (GetPostsPage page)"
  by (simp_all add: is_post_write_def)

lemma findPostByTitle_post_writes:
  assumes "findPostByTitle apiInstance title w = (x, w')"
  shows "post_writes (snd w') = post_writes (snd w)"
proof -
  from findPostByTitle_trace[OF assms] obtain k tr where
    tr: "snd w' = snd w @ tr" "requests tr = map GetPostsPage [1..<Suc k]" by blast
  have "filter is_post_write (map GetPostsPage ps) = []" for ps by (induction ps) auto
  with tr show ?thesis by (simp add: post_writes_def)
qed

lemma findPostBySlug_eq:
  assumes "slug \<noteq> []" "trim slug = slug"
  shows "findPostBySlug apiInstance slug w =
     (case get_posts_slug apiInstance slug (fst w) of
        (reply, s') \<Rightarrow>
          ((case reply of Inl error \<Rightarrow> None | Inr [] \<Rightarrow> None | Inr (post # posts) \<Rightarrow> Some (post_id post)),
           (s', snd w @ [call_event (GetPostsSlug slug) reply])))"
  using assms
  by (auto simp: findPostBySlug_def call_eq split: prod.splits sum.splits list.splits)

lemma createOrUpdatePost_outcome:
  assumes "prepare_row h apiInstance cfg r w = (Inr postData, w1)"
    and "check_then_write apiInstance cfg postData w1 =
           ((case reply of Inl error \<Rightarrow> Inl error | Inr response \<Rightarrow> Inr (act, response)), w2)"
  shows "createOrUpdatePost h apiInstance cfg r n w = (write_outcome r n act reply, w2)"
  using assms(2)
  by (cases reply) (simp_all add: createOrUpdatePost_prepared[OF assms(1)] write_outcome_def)

text \<open>
  Claim C2, as amended. Take a row whose preparation succeeds and whose title passes the
  duplicate check. If the payload has a slug and the listing for that slug returns a post
  with a non-zero identifier first, the only create or update call of the row is an update
  of that identifier, and the result is \<open>updated\<close> with the identifier and status of the
  response when the call returns, and failed with the error of the call when it throws. If
  the payload has no slug, or the listing for the slug throws, is empty or starts with a
  post without identifier, the only such call is a create, and the result is \<open>created\<close> when
  it returns, and failed with its error when it throws.
\<close>

theorem C2_update_on_slug_match_else_create:
  assumes prep: "prepare_row h apiInstance cfg r w = (Inr postData, w1)"
    and nodup: "findPostByTitle apiInstance (pd_title postData) w1 = (existingPostByTitle, w2)"
      "\<not> id_truthy existingPostByTitle"
  shows "(pd_slug postData = Some slug
          \<and> get_posts_slug apiInstance slug (fst w2) = (Inr (post # posts), s3)
          \<and> post_id post \<noteq> 0
          \<longrightarrow> post_writes (snd (snd (createOrUpdatePost h apiInstance cfg r n w))) =
                post_writes (snd w) @ [PostPostsId (post_id post) postData]
              \<and> fst (createOrUpdatePost h apiInstance cfg r n w) =
                write_outcome r n Updated (fst (post_posts_id apiInstance (post_id post) postData s3)))
       \<and> (pd_slug postData = None
          \<longrightarrow> post_writes (snd (snd (createOrUpdatePost h apiInstance cfg r n w))) =
                post_writes (snd w) @ [PostPosts postData]
              \<and> fst (createOrUpdatePost h apiInstance cfg r n w) =
                write_outcome r n Created (fst (post_posts apiInstance postData (fst w2))))
       \<and> (pd_slug postData = Some slug
          \<and> get_posts_slug apiInstance slug (fst w2) = (reply, s3)
          \<and> (case reply of Inl error \<Rightarrow> True | Inr [] \<Rightarrow> True
              | Inr (post # posts) \<Rightarrow> post_id post = 0)
          \<longrightarrow> post_writes (snd (snd (createOrUpdatePost h apiInstance cfg r n w))) =
                post_writes (snd w) @ [PostPosts postData]
              \<and> fst (createOrUpdatePost h apiInstance cfg r n w) =
                write_outcome r n Created (fst (post_posts apiInstance postData s3)))"
proof -
  note pr = prepare_row_Inr[OF prep]
  have pw1: "post_writes (snd w1) = post_writes (snd w)"
    using prepare_row_extends[OF prep] by (rule post_writes_extends_aux)
  have pw2: "post_writes (snd w2) = post_writes (snd w)"
    using findPostByTitle_post_writes[OF nodup(1)] pw1 by simp
  have slug_ok: "sl \<noteq> [] \<and> trim sl = sl" if "pd_slug postData = Some sl" for sl
    using that pr(5) by (auto simp: trim_opt_trim split: if_splits)
  have ctw: "check_then_write apiInstance cfg postData w1 =
      (case lookup_slug apiInstance postData w2 of
         (existingPostId, w3) \<Rightarrow> write_post apiInstance cfg postData existingPostId w3)"
    using nodup by (simp add: check_then_write_def)
  show ?thesis
  proof (intro conjI impI)
    assume a: "pd_slug postData = Some slug
          \<and> get_posts_slug apiInstance slug (fst w2) = (Inr (post # posts), s3)
          \<and> post_id post \<noteq> 0"
    let ?reply = "fst (post_posts_id apiInstance (post_id post) postData s3)"
    let ?w3 = "(s3, snd w2 @ [call_event (GetPostsSlug slug) (Inr (post # posts) :: wp_post list reply)])"
    have ls: "lookup_slug apiInstance postData w2 = (Some (post_id post), ?w3)"
      using a slug_ok[of slug] by (simp add: lookup_slug_def findPostBySlug_eq)
    define s4 where "s4 = snd (post_posts_id apiInstance (post_id post) postData s3)"
    have c: "check_then_write apiInstance cfg postData w1 =
        ((case ?reply of Inl error \<Rightarrow> Inl error | Inr response \<Rightarrow> Inr (Updated, response)),
         (s4, snd ?w3 @ [Sleep (REQUEST_DELAY_MS cfg),
               call_event (PostPostsId (post_id post) postData) ?reply]))"
      using a by (simp add: ctw ls write_post_update s4_def)
    note res = createOrUpdatePost_outcome[OF prep c, of n]
    show "post_writes (snd (snd (createOrUpdatePost h apiInstance cfg r n w))) =
                post_writes (snd w) @ [PostPostsId (post_id post) postData]"
      and "fst (createOrUpdatePost h apiInstance cfg r n w) =
                write_outcome r n Updated ?reply"
      by (simp_all add: res pw2)
  next
    assume a: "pd_slug postData = None"
    let ?reply = "fst (post_posts apiInstance postData (fst w2))"
    have ls: "lookup_slug apiInstance postData w2 = (None, w2)"
      using a by (simp add: lookup_slug_def)
    define s4 where "s4 = snd (post_posts apiInstance postData (fst w2))"
    have c: "check_then_write apiInstance cfg postData w1 =
        ((case ?reply of Inl error \<Rightarrow> Inl error | Inr response \<Rightarrow> Inr (Created, response)),
         (s4, snd w2 @ [Sleep (REQUEST_DELAY_MS cfg), call_event (PostPosts postData) ?reply]))"
      by (simp add: ctw ls write_post_create id_truthy_def s4_def)
    note res = createOrUpdatePost_outcome[OF prep c, of n]
    show "post_writes (snd (snd (createOrUpdatePost h apiInstance cfg r n w))) =
                post_writes (snd w) @ [PostPosts postData]"
      and "fst (createOrUpdatePost h apiInstance cfg r n w) = write_outcome r n Created ?reply"
      by (simp_all add: res pw2)
  next
    assume a: "pd_slug postData = Some slug
          \<and> get_posts_slug apiInstance slug (fst w2) = (reply, s3)
          \<and> (case reply of Inl error \<Rightarrow> True | Inr [] \<Rightarrow> True
              | Inr (post # posts) \<Rightarrow> post_id post = 0)"
    let ?reply = "fst (post_posts apiInstance postData s3)"
    let ?w3 = "(s3, snd w2 @ [call_event (GetPostsSlug slug) reply])"
    obtain existingPostId where
      ls: "lookup_slug apiInstance postData w2 = (existingPostId, ?w3)"
      and nt: "\<not> id_truthy existingPostId"
      using a slug_ok[of slug]
      by (auto simp: lookup_slug_def findPostBySlug_eq id_truthy_def split: sum.splits list.splits)
    define s4 where "s4 = snd (post_posts apiInstance postData s3)"
    have c: "check_then_write apiInstance cfg postData w1 =
        ((case ?reply of Inl error \<Rightarrow> Inl error | Inr response \<Rightarrow> Inr (Created, response)),
         (s4, snd ?w3 @ [Sleep (REQUEST_DELAY_MS cfg), call_event (PostPosts postData) ?reply]))"
      using nt by (simp add: ctw ls write_post_create s4_def)
    note res = createOrUpdatePost_outcome[OF prep c, of n]
    show "post_writes (snd (snd (createOrUpdatePost h apiInstance cfg r n w))) =
                post_writes (snd w) @ [PostPosts postData]"
      and "fst (createOrUpdatePost h apiInstance cfg r n w) = write_outcome r n Created ?reply"
      by (simp_all add: res pw2)
  qed
qed

theorem C2_counterexample:
  "fst (get_posts_slug read_only_site ''other-news'' small_site) = Inr [published 8 ''Other news'']
   \<and> fst (findPostByTitle read_only_site ''Fresh title'' (small_site, [])) = None
   \<and> fst (createOrUpdatePost example_host read_only_site example_config slug_row 1 (small_site, [])) =
       \<lparr>rowNumber = 1, res_title = ''Fresh title'', res_action = None, postId = None,
        res_status = None,
        res_error = Some (''Request failed with status code 403: {'' @ [CHR 0x22] @ ''code''
          @ [CHR 0x22] @ '':'' @ [CHR 0x22] @ ''rest_cannot_edit'' @ [CHR 0x22] @ ''}'')\<rparr>
   \<and> post_writes (snd (snd (createOrUpdatePost example_host read_only_site example_config slug_row 1
         (small_site, [])))) = [PostPostsId 8 slug_data]"
  by code_simp

lemma prepare_slug_row:
  "prepare_row example_host memory_site example_config slug_row (small_site, []) =
     (Inr slug_data, (small_site, []))"
  by code_simp

lemma prepare_fresh_row:
  "prepare_row example_host memory_site example_config fresh_row (small_site, []) =
     (Inr (slug_data\<lparr>pd_slug := None\<rparr>), (small_site, []))"
  by code_simp

lemma find_fresh_title:
  "findPostByTitle memory_site (pd_title slug_data) (small_site, []) =
     (None, (small_site, [Returned (GetPostsPage 1)]))"
  "findPostByTitle memory_site (pd_title (slug_data\<lparr>pd_slug := None\<rparr>)) (small_site, []) =
     (None, (small_site, [Returned (GetPostsPage 1)]))"
  by code_simp+

lemma slug_listing:
  "get_posts_slug memory_site ''other-news'' (fst (small_site, [Returned (GetPostsPage 1)])) =
     (Inr (published 8 ''Other news'' # []), small_site)"
  by code_simp

lemma slug_update_outcome:
  "write_outcome slug_row 2 Updated (fst (post_posts_id memory_site 8 slug_data small_site)) =
     \<lparr>rowNumber = 2, res_title = ''Fresh title'', res_action = Some Updated, postId = Some 8,
      res_status = Some ''draft'', res_error = None\<rparr>"
  by code_simp

lemma fresh_create_outcome:
  "write_outcome fresh_row 3 Created
     (fst (post_posts memory_site (slug_data\<lparr>pd_slug := None\<rparr>)
            (fst (small_site, [Returned (GetPostsPage 1)])))) =
     \<lparr>rowNumber = 3, res_title = ''Fresh title'', res_action = Some Created, postId = Some 9,
      res_status = Some ''draft'', res_error = None\<rparr>"
  by code_simp

lemma prepare_new_slug_row:
  "prepare_row example_host memory_site example_config new_slug_row (small_site, []) =
     (Inr (slug_data\<lparr>pd_slug := Some ''brand-new''\<rparr>), (small_site, []))"
  by code_simp

lemma find_new_slug_title:
  "findPostByTitle memory_site (pd_title (slug_data\<lparr>pd_slug := Some ''brand-new''\<rparr>)) (small_site, []) =
     (None, (small_site, [Returned (GetPostsPage 1)]))"
  by code_simp

lemma new_slug_listing:
  "get_posts_slug memory_site ''brand-new'' (fst (small_site, [Returned (GetPostsPage 1)])) =
     (Inr [], small_site)"
  by code_simp

lemma new_slug_outcome:
  "write_outcome new_slug_row 4 Created
     (fst (post_posts memory_site (slug_data\<lparr>pd_slug := Some ''brand-new''\<rparr>) small_site)) =
     \<lparr>rowNumber = 4, res_title = ''Fresh title'', res_action = Some Created, postId = Some 9,
      res_status = Some ''draft'', res_error = None\<rparr>"
  by code_simp

theorem C2_witness:
  "fst (createOrUpdatePost example_host memory_site example_config slug_row 2 (small_site, [])) =
     \<lparr>rowNumber = 2, res_title = ''Fresh title'', res_action = Some Updated, postId = Some 8,
      res_status = Some ''draft'', res_error = None\<rparr>
   \<and> post_writes (snd (snd (createOrUpdatePost example_host memory_site example_config slug_row 2
        (small_site, [])))) = [PostPostsId 8 slug_data]
   \<and> fst (createOrUpdatePost example_host memory_site example_config fresh_row 3 (small_site, [])) =
     \<lparr>rowNumber = 3, res_title = ''Fresh title'', res_action = Some Created, postId = Some 9,
      res_status = Some ''draft'', res_error = None\<rparr>
   \<and> post_writes (snd (snd (createOrUpdatePost example_host memory_site example_config fresh_row 3
        (small_site, [])))) = [PostPosts (slug_data\<lparr>pd_slug := None\<rparr>)]
   \<and> fst (createOrUpdatePost example_host memory_site example_config new_slug_row 4 (small_site, [])) =
     \<lparr>rowNumber = 4, res_title = ''Fresh title'', res_action = Some Created, postId = Some 9,
      res_status = Some ''draft'', res_error = None\<rparr>
   \<and> post_writes (snd (snd (createOrUpdatePost example_host memory_site example_config new_slug_row 4
        (small_site, [])))) = [PostPosts (slug_data\<lparr>pd_slug := Some ''brand-new''\<rparr>)]"
proof -
  have nt: "\<not> id_truthy None" by (simp add: id_truthy_def)
  have s: "pd_slug slug_data = Some ''other-news''" "post_id (published 8 ''Other news'') \<noteq> 0"
    "pd_slug (slug_data\<lparr>pd_slug := None\<rparr>) = None"
    "pd_slug (slug_data\<lparr>pd_slug := Some ''brand-new''\<rparr>) = Some ''brand-new''"
    by (simp_all add: slug_data_def published_def)
  from C2_update_on_slug_match_else_create [OF prepare_slug_row find_fresh_title(1) nt,
      THEN conjunct1, of "''other-news''" "published 8 ''Other news''" "[]" small_site 2]
    s slug_listing
  have a: "post_writes (snd (snd (createOrUpdatePost example_host memory_site example_config slug_row 2
        (small_site, [])))) = [PostPostsId 8 slug_data]
     \<and> fst (createOrUpdatePost example_host memory_site example_config slug_row 2 (small_site, [])) =
        write_outcome slug_row 2 Updated (fst (post_posts_id memory_site 8 slug_data small_site))"
    by (simp add: published_def)
  from C2_update_on_slug_match_else_create [OF prepare_fresh_row find_fresh_title(2) nt,
      THEN conjunct2, THEN conjunct1, of 3] s(3)
  have b: "post_writes (snd (snd (createOrUpdatePost example_host memory_site example_config fresh_row 3
        (small_site, [])))) = [PostPosts (slug_data\<lparr>pd_slug := None\<rparr>)]
     \<and> fst (createOrUpdatePost example_host memory_site example_config fresh_row 3 (small_site, [])) =
        write_outcome fresh_row 3 Created
          (fst (post_posts memory_site (slug_data\<lparr>pd_slug := None\<rparr>)
            (fst (small_site, [Returned (GetPostsPage 1)]))))"
    by simp
  from C2_update_on_slug_match_else_create [where slug = "''brand-new''" and reply = "Inr []"
      and ?s3.0 = small_site and n = 4, OF prepare_new_slug_row find_new_slug_title nt,
      THEN conjunct2, THEN conjunct2]
    s(4) new_slug_listing
  have c: "post_writes (snd (snd (createOrUpdatePost example_host memory_site example_config new_slug_row 4
        (small_site, [])))) = [PostPosts (slug_data\<lparr>pd_slug := Some ''brand-new''\<rparr>)]
     \<and> fst (createOrUpdatePost example_host memory_site example_config new_slug_row 4 (small_site, [])) =
        write_outcome new_slug_row 4 Created
          (fst (post_posts memory_site (slug_data\<lparr>pd_slug := Some ''brand-new''\<rparr>) small_site))"
    by simp
  from a b c show ?thesis
    by (simp only: slug_update_outcome fresh_create_outcome new_slug_outcome)
qed
section \<open>The batch\<close>

lemma createOrUpdatePost_rowNumber:
  "rowNumber (fst (createOrUpdatePost h apiInstance cfg r n w)) = n"
  "res_title (fst (createOrUpdatePost h apiInstance cfg r n w)) = result_title r"
  by (auto simp: createOrUpdatePost_def Let_def result_title_def split: prod.splits sum.splits)

lemma process_rows_results:
  "\<exists>rs. fst (process_rows h apiInstance cfg rows i logResults w) = logResults @ rs
        \<and> map rowNumber rs = [Suc i..<Suc (i + length rows)]
        \<and> map res_title rs = map result_title rows"
proof (induction rows arbitrary: i logResults w)
  case Nil
  then show ?case by simp
next
  case (Cons r rows)
  obtain res w1 where c: "createOrUpdatePost h apiInstance cfg r (i + 1) w = (res, w1)"
    by (meson surj_pair)
  from Cons.IH[of "i + 1" "logResults @ [res]" w1] obtain rs where
    rs: "fst (process_rows h apiInstance cfg rows (i + 1) (logResults @ [res]) w1) =
           (logResults @ [res]) @ rs"
        "map rowNumber rs = [Suc (i + 1)..<Suc (i + 1 + length rows)]"
        "map res_title rs = map result_title rows"
    by blast
  have n: "rowNumber res = i + 1" "res_title res = result_title r"
    using createOrUpdatePost_rowNumber[of h apiInstance cfg r "i + 1" w] c by simp_all
  have "Suc i < Suc (i + length (r # rows))" by simp
  from upt_conv_Cons[OF this]
  have "[Suc i..<Suc (i + length (r # rows))] = Suc i # [Suc (i + 1)..<Suc (i + 1 + length rows)]"
    by simp
  with rs n c show ?case
    by (intro exI[of _ "res # rs"]) simp
qed

lemma filter_partition_length:
  "length (filter (\<lambda>x. \<not> P x) xs) + length (filter P xs) = length xs"
  by (induction xs) auto

text \<open>
  Claim C3, as amended. When the connectivity check passes and the list of rows is not
  empty, processCsvFile returns a summary with exactly one result per row, in the order of
  the rows: the i-th result carries row number i (from 1) and the title of the i-th row,
  whether rows fail or not; the total is the number of rows, and the success and failure
  counts add up to it. An empty list of rows is refused with an exception.
\<close>

theorem C3_one_result_per_row:
  assumes "fst (get_posts_ping apiInstance (fst w)) = Inr response" and "rows \<noteq> []"
  shows "\<exists>s. fst (processCsvFile h apiInstance cfg (Inr rows) w) = Inr s
           \<and> length (results s) = length rows
           \<and> map rowNumber (results s) = [1..<Suc (length rows)]
           \<and> map res_title (results s) = map result_title rows
           \<and> total s = length rows
           \<and> success s + failed s = length rows"
proof -
  obtain s' where p: "get_posts_ping apiInstance (fst w) = (Inr response, s')"
    using assms(1) by (cases "get_posts_ping apiInstance (fst w)") simp
  let ?w1 = "(s', snd w @ [Returned GetPostsPing])"
  have cc: "checkConnectivity apiInstance w = (True, ?w1)"
    using p by (simp add: checkConnectivity_def call_def)
  from process_rows_results[of h apiInstance cfg rows 0 "[]" ?w1] obtain rs where
    rs: "fst (process_rows h apiInstance cfg rows 0 [] ?w1) = rs"
        "map rowNumber rs = [1..<Suc (length rows)]"
        "map res_title rs = map result_title rows"
    by auto
  from rs(2) have len: "length rs = length rows" by (metis length_map length_upt diff_Suc_1 One_nat_def)
  let ?s = "\<lparr>total = length rows,
            success = length (filter (\<lambda>r. \<not> has_error r) rs),
            failed = length (filter has_error rs),
            results = rs\<rparr>"
  have "fst (processCsvFile h apiInstance cfg (Inr rows) w) = Inr ?s"
    using cc rs(1) assms(2)
    by (cases "process_rows h apiInstance cfg rows 0 [] ?w1") (simp add: processCsvFile_def)
  with rs len show ?thesis
    by (intro exI[of _ ?s]) (simp add: filter_partition_length)
qed

theorem C3_counterexample:
  "processCsvFile example_host memory_site example_config (Inr []) (empty_site, []) =
     (Inl (Error ''CSV file is empty''), (empty_site, [Returned GetPostsPing]))"
  by code_simp

lemma three_rows_run:
  "fst (processCsvFile example_host memory_site example_config
          (Inr [brunch_row, brunch_again, simple_row ''Sunday'' ''  '']) (empty_site, [])) =
     Inr \<lparr>total = 3, success = 1, failed = 2,
          results =
            [\<lparr>rowNumber = 1, res_title = ''Weekend Brunch'', res_action = Some Created,
              postId = Some 1, res_status = Some ''draft'', res_error = None\<rparr>,
             \<lparr>rowNumber = 2, res_title = '' weekend  BRUNCH'', res_action = None, postId = None,
              res_status = None,
              res_error = Some (''Post with title '' @ [CHR 0x22] @ ''weekend  BRUNCH''
                @ [CHR 0x22] @ '' already exists (ID: 1). Duplicate posts are not allowed.'')\<rparr>,
             \<lparr>rowNumber = 3, res_title = ''Sunday'', res_action = None, postId = None,
              res_status = None, res_error = Some ''Missing required field: content''\<rparr>]\<rparr>"
  by code_simp

theorem C3_witness:
  "fst (processCsvFile example_host memory_site example_config
          (Inr [brunch_row, brunch_again, simple_row ''Sunday'' ''  '']) (empty_site, [])) =
     Inr \<lparr>total = 3, success = 1, failed = 2,
          results =
            [\<lparr>rowNumber = 1, res_title = ''Weekend Brunch'', res_action = Some Created,
              postId = Some 1, res_status = Some ''draft'', res_error = None\<rparr>,
             \<lparr>rowNumber = 2, res_title = '' weekend  BRUNCH'', res_action = None, postId = None,
              res_status = None,
              res_error = Some (''Post with title '' @ [CHR 0x22] @ ''weekend  BRUNCH''
                @ [CHR 0x22] @ '' already exists (ID: 1). Duplicate posts are not allowed.'')\<rparr>,
             \<lparr>rowNumber = 3, res_title = ''Sunday'', res_action = None, postId = None,
              res_status = None, res_error = Some ''Missing required field: content''\<rparr>]\<rparr>
   \<and> (\<exists>s. fst (processCsvFile example_host memory_site example_config
          (Inr [brunch_row, brunch_again, simple_row ''Sunday'' ''  '']) (empty_site, [])) = Inr s
         \<and> length (results s) = 3 \<and> map rowNumber (results s) = [1, 2, 3]
         \<and> success s + failed s = 3)"
proof -
  have p: "fst (get_posts_ping memory_site (fst (empty_site, []))) = Inr []"
    by code_simp
  have ne: "[brunch_row, brunch_again, simple_row ''Sunday'' ''  ''] \<noteq> []" by simp
  have u: "[1..<Suc (length [brunch_row, brunch_again, simple_row ''Sunday'' ''  ''])] = [1, 2, 3]"
    by (simp add: upt_conv_Cons)
  from C3_one_result_per_row [OF p ne, of example_host example_config] u
  have "\<exists>s. fst (processCsvFile example_host memory_site example_config
          (Inr [brunch_row, brunch_again, simple_row ''Sunday'' ''  '']) (empty_site, [])) = Inr s
         \<and> length (results s) = 3 \<and> map rowNumber (results s) = [1, 2, 3]
         \<and> success s + failed s = 3"
    by auto
  with three_rows_run show ?thesis by blast
qed

section \<open>Errors of the lookups\<close>

lemma new_events_append [simp]: "snd w' = snd w @ tr \<Longrightarrow> new_events w w' = tr"
  by (simp add: new_events_def)



lemma threw_call_event [simp]: "threw (call_event req reply) = isl reply"
  by (cases reply) (simp_all add: threw_def call_event_def)

lemma Threw_call_event [simp]: "Threw req = call_event req' reply \<longleftrightarrow> req = req' \<and> isl reply"
  by (cases reply) (auto simp: call_event_def)








lemma not_aux_lookup [simp]:
  "\<not> is_aux_request (GetPostsPage p)" "\<not> is_aux_request (GetPostsSlug sl)"
  by (simp_all add: is_aux_request_def)













section \<open>The term resolver\<close>

lemma resolveTerms_loop_outcomes:
  "fst (resolveTerms_loop apiInstance names taxonomy delayMs termIds w) =
     termIds @ concat (map kept_id (label_outcomes apiInstance names taxonomy delayMs w))"
proof (induction names arbitrary: termIds w)
  case Nil
  then show ?case by simp
next
  case (Cons name names)
  obtain termId w1 where g: "getOrCreateTerm apiInstance name taxonomy delayMs w = (termId, w1)"
    by (meson surj_pair)
  show ?case
    using g by (cases termId) (simp_all add: Cons.IH kept_id_def)
qed

lemma length_label_outcomes [simp]:
  "length (label_outcomes apiInstance names taxonomy delayMs w) = length names"
  by (induction names arbitrary: w) (auto split: prod.splits)

lemma split_on_no_sep: "sep \<notin> set s \<Longrightarrow> split_on sep s = [s]"
  by (induction s) auto

lemma trim_Nil_spaces: "trim s = [] \<Longrightarrow> \<forall>c\<in>set s. is_space c"
proof -
  assume "trim s = []"
  then have "dropWhile is_space (rev (dropWhile is_space s)) = []" by (simp add: trim_def)
  then have "\<forall>c\<in>set (dropWhile is_space s). is_space c" by (simp add: dropWhile_eq_Nil_conv)
  then have "dropWhile is_space s = []"
    by (metis dropWhile_eq_Nil_conv hd_dropWhile list.set_sel(1))
  then show ?thesis by (simp add: dropWhile_eq_Nil_conv)
qed

lemma term_names_blank: "termString = [] \<or> trim termString = [] \<Longrightarrow> term_names termString = []"
proof -
  assume "termString = [] \<or> trim termString = []"
  then have t: "trim termString = []" by auto
  from trim_Nil_spaces[OF t] have "CHR '','' \<notin> set termString" by (auto simp: is_space_def)
  from split_on_no_sep[OF this] t show ?thesis by (simp add: term_names_def)
qed

lemma resolveTerms_outcomes:
  "fst (resolveTerms apiInstance termString taxonomy delayMs w) =
     concat (map kept_id (label_outcomes apiInstance (term_names termString) taxonomy delayMs w))"
  by (simp add: resolveTerms_def resolveTerms_loop_outcomes term_names_blank)

lemma getOrCreateTerm_hit:
  assumes "name \<noteq> []" "trim name \<noteq> []"
    and "get_terms apiInstance taxonomy (trim name) (fst w) = (Inr terms, s1)"
    and "find (\<lambda>t. toLowerCase (term_name t) = toLowerCase (trim name)) terms = Some existing"
  shows "getOrCreateTerm apiInstance name taxonomy delayMs w =
     (Some (term_id existing), (s1, snd w @ [Returned (GetTerms taxonomy (trim name))]))"
  using assms by (simp add: getOrCreateTerm_def Let_def call_def)

lemma getOrCreateTerm_miss:
  assumes "name \<noteq> []" "trim name \<noteq> []"
    and "get_terms apiInstance taxonomy (trim name) (fst w) = (Inr terms, s1)"
    and "find (\<lambda>t. toLowerCase (term_name t) = toLowerCase (trim name)) terms = None"
  shows "getOrCreateTerm apiInstance name taxonomy delayMs w =
     ((case fst (post_term apiInstance taxonomy (trim name) s1) of
         Inl error \<Rightarrow> None | Inr createdId \<Rightarrow> Some createdId),
      (snd (post_term apiInstance taxonomy (trim name) s1),
       snd w @ [Returned (GetTerms taxonomy (trim name)), Sleep delayMs,
                call_event (PostTerm taxonomy (trim name))
                  (fst (post_term apiInstance taxonomy (trim name) s1))]))"
  using assms
  by (auto simp: getOrCreateTerm_def Let_def call_def sleep_def call_event_def
      split: prod.splits sum.splits)

lemma getOrCreateTerm_search_error:
  assumes "name \<noteq> []" "trim name \<noteq> []"
    and "get_terms apiInstance taxonomy (trim name) (fst w) = (Inl error, s1)"
  shows "getOrCreateTerm apiInstance name taxonomy delayMs w =
     (None, (s1, snd w @ [Threw (GetTerms taxonomy (trim name))]))"
  using assms by (simp add: getOrCreateTerm_def Let_def call_def)

text \<open>
  Claim C9, as amended. The term resolver returns one identifier per non-empty trimmed label
  of the string, in the order of the labels, repeated labels included: the list is made of
  the outcomes of getOrCreateTerm for the labels in turn, without those that are null or
  zero. For a label, getOrCreateTerm searches the taxonomy for the trimmed label: when a
  listed term has the same name up to case, it returns the identifier of the first such
  term and makes no other call; when none has, it creates the term after the delay and
  returns the new identifier, or null when the creation throws; when the search throws it
  returns null.
\<close>

theorem C9_one_identifier_per_label:
  "fst (resolveTerms apiInstance termString taxonomy delayMs w) =
     concat (map kept_id (label_outcomes apiInstance (term_names termString) taxonomy delayMs w))
   \<and> length (label_outcomes apiInstance (term_names termString) taxonomy delayMs w) =
       length (term_names termString)
   \<and> (name \<noteq> [] \<and> trim name \<noteq> []
       \<and> get_terms apiInstance taxonomy (trim name) (fst w) = (Inr terms, s1)
       \<and> find (\<lambda>t. toLowerCase (term_name t) = toLowerCase (trim name)) terms = Some existing
       \<longrightarrow> getOrCreateTerm apiInstance name taxonomy delayMs w =
             (Some (term_id existing), (s1, snd w @ [Returned (GetTerms taxonomy (trim name))])))
   \<and> (name \<noteq> [] \<and> trim name \<noteq> []
       \<and> get_terms apiInstance taxonomy (trim name) (fst w) = (Inr terms, s1)
       \<and> find (\<lambda>t. toLowerCase (term_name t) = toLowerCase (trim name)) terms = None
       \<longrightarrow> getOrCreateTerm apiInstance name taxonomy delayMs w =
             ((case fst (post_term apiInstance taxonomy (trim name) s1) of
                 Inl error \<Rightarrow> None | Inr createdId \<Rightarrow> Some createdId),
              (snd (post_term apiInstance taxonomy (trim name) s1),
               snd w @ [Returned (GetTerms taxonomy (trim name)), Sleep delayMs,
                        call_event (PostTerm taxonomy (trim name))
                          (fst (post_term apiInstance taxonomy (trim name) s1))])))
   \<and> (name \<noteq> [] \<and> trim name \<noteq> []
       \<and> get_terms apiInstance taxonomy (trim name) (fst w) = (Inl error, s1)
       \<longrightarrow> getOrCreateTerm apiInstance name taxonomy delayMs w =
             (None, (s1, snd w @ [Threw (GetTerms taxonomy (trim name))])))"
proof (intro conjI impI)
  show "fst (resolveTerms apiInstance termString taxonomy delayMs w) =
     concat (map kept_id (label_outcomes apiInstance (term_names termString) taxonomy delayMs w))"
    by (rule resolveTerms_outcomes)
  show "length (label_outcomes apiInstance (term_names termString) taxonomy delayMs w) =
       length (term_names termString)"
    by (rule length_label_outcomes)
next
  assume "name \<noteq> [] \<and> trim name \<noteq> []
       \<and> get_terms apiInstance taxonomy (trim name) (fst w) = (Inr terms, s1)
       \<and> find (\<lambda>t. toLowerCase (term_name t) = toLowerCase (trim name)) terms = Some existing"
  then show "getOrCreateTerm apiInstance name taxonomy delayMs w =
             (Some (term_id existing), (s1, snd w @ [Returned (GetTerms taxonomy (trim name))]))"
    by (intro getOrCreateTerm_hit) auto
next
  assume "name \<noteq> [] \<and> trim name \<noteq> []
       \<and> get_terms apiInstance taxonomy (trim name) (fst w) = (Inr terms, s1)
       \<and> find (\<lambda>t. toLowerCase (term_name t) = toLowerCase (trim name)) terms = None"
  then show "getOrCreateTerm apiInstance name taxonomy delayMs w =
             ((case fst (post_term apiInstance taxonomy (trim name) s1) of
                 Inl error \<Rightarrow> None | Inr createdId \<Rightarrow> Some createdId),
              (snd (post_term apiInstance taxonomy (trim name) s1),
               snd w @ [Returned (GetTerms taxonomy (trim name)), Sleep delayMs,
                        call_event (PostTerm taxonomy (trim name))
                          (fst (post_term apiInstance taxonomy (trim name) s1))]))"
    by (intro getOrCreateTerm_miss) auto
next
  assume "name \<noteq> [] \<and> trim name \<noteq> []
       \<and> get_terms apiInstance taxonomy (trim name) (fst w) = (Inl error, s1)"
  then show "getOrCreateTerm apiInstance name taxonomy delayMs w =
             (None, (s1, snd w @ [Threw (GetTerms taxonomy (trim name))]))"
    by (intro getOrCreateTerm_search_error) auto
qed

theorem C9_counterexample:
  "term_names ''News,News'' = [''News'', ''News'']
   \<and> remdups (term_names ''News,News'') = [''News'']
   \<and> fst (resolveTerms memory_site ''News,News'' ''categories'' 300 (empty_site, [])) = [1, 1]"
  by code_simp

lemma mixed_labels:
  "term_names ''News, Sports,,news '' = [''News'', ''Sports'', ''news'']"
  "label_outcomes memory_site [''News'', ''Sports'', ''news''] ''categories'' 300 (empty_site, []) =
     [Some 1, Some 2, Some 1]"
  by code_simp+

lemma label_facts:
  "'' NEWS '' \<noteq> []" "trim '' NEWS '' = ''NEWS''" "''Sports'' \<noteq> []" "trim ''Sports'' = ''Sports''"
  by code_simp+

lemma news_search:
  "get_terms memory_site ''categories'' ''NEWS'' (fst (news_site, [])) =
     (Inr [\<lparr>term_id = 4, term_name = ''News''\<rparr>], news_site)"
  "find (\<lambda>t. toLowerCase (term_name t) = toLowerCase ''NEWS'') [\<lparr>term_id = 4, term_name = ''News''\<rparr>] =
     Some \<lparr>term_id = 4, term_name = ''News''\<rparr>"
  by code_simp+

lemma sports_search:
  "get_terms memory_site ''categories'' ''Sports'' (fst (news_site, [])) = (Inr [], news_site)"
  "find (\<lambda>t. toLowerCase (term_name t) = toLowerCase ''Sports'') [] = None"
  "fst (post_term memory_site ''categories'' ''Sports'' news_site) = Inr 5"
  by code_simp+

lemma failing_search:
  "get_terms termless_site ''categories'' ''Sports'' (fst (news_site, [])) =
     (Inl (Error ''timeout of 30000ms exceeded''), news_site)"
  by code_simp

theorem C9_witness:
  "fst (resolveTerms memory_site ''News, Sports,,news '' ''categories'' 300 (empty_site, [])) = [1, 2, 1]
   \<and> length (label_outcomes memory_site (term_names ''News, Sports,,news '') ''categories'' 300
        (empty_site, [])) = 3
   \<and> getOrCreateTerm memory_site '' NEWS '' ''categories'' 300 (news_site, []) =
       (Some 4, (news_site, [Returned (GetTerms ''categories'' ''NEWS'')]))
   \<and> fst (getOrCreateTerm memory_site ''Sports'' ''categories'' 300 (news_site, [])) = Some 5
   \<and> snd (snd (getOrCreateTerm memory_site ''Sports'' ''categories'' 300 (news_site, []))) =
       [Returned (GetTerms ''categories'' ''Sports''), Sleep 300,
        Returned (PostTerm ''categories'' ''Sports'')]
   \<and> getOrCreateTerm termless_site ''Sports'' ''categories'' 300 (news_site, []) =
       (None, (news_site, [Threw (GetTerms ''categories'' ''Sports'')]))"
proof -
  note c = C9_one_identifier_per_label [of memory_site "''News, Sports,,news ''" "''categories''" 300
      "(empty_site, [])"]
  have k: "concat (map kept_id [Some 1, Some 2, Some (1::nat)]) = [1, 2, 1]"
    by (simp add: kept_id_def)
  from c[THEN conjunct1] c[THEN conjunct2, THEN conjunct1]
  have a: "fst (resolveTerms memory_site ''News, Sports,,news '' ''categories'' 300 (empty_site, [])) = [1, 2, 1]
   \<and> length (label_outcomes memory_site (term_names ''News, Sports,,news '') ''categories'' 300
        (empty_site, [])) = 3"
    unfolding mixed_labels k by simp
  from C9_one_identifier_per_label [where apiInstance = memory_site and taxonomy = "''categories''"
      and delayMs = 300 and w = "(news_site, [])" and name = "'' NEWS ''"
      and terms = "[\<lparr>term_id = 4, term_name = ''News''\<rparr>]" and ?s1.0 = news_site
      and existing = "\<lparr>term_id = 4, term_name = ''News''\<rparr>",
      THEN conjunct2, THEN conjunct2, THEN conjunct1]
    label_facts news_search
  have h: "getOrCreateTerm memory_site '' NEWS '' ''categories'' 300 (news_site, []) =
       (Some 4, (news_site, [Returned (GetTerms ''categories'' ''NEWS'')]))"
    by simp
  from C9_one_identifier_per_label [where apiInstance = memory_site and taxonomy = "''categories''"
      and delayMs = 300 and w = "(news_site, [])" and name = "''Sports''"
      and terms = "[]" and ?s1.0 = news_site,
      THEN conjunct2, THEN conjunct2, THEN conjunct2, THEN conjunct1]
    label_facts sports_search
  have m: "fst (getOrCreateTerm memory_site ''Sports'' ''categories'' 300 (news_site, [])) = Some 5
   \<and> snd (snd (getOrCreateTerm memory_site ''Sports'' ''categories'' 300 (news_site, []))) =
       [Returned (GetTerms ''categories'' ''Sports''), Sleep 300,
        Returned (PostTerm ''categories'' ''Sports'')]"
    by (simp add: call_event_def)
  from C9_one_identifier_per_label [where apiInstance = termless_site and taxonomy = "''categories''"
      and delayMs = 300 and w = "(news_site, [])" and name = "''Sports''"
      and error = "Error ''timeout of 30000ms exceeded''" and ?s1.0 = news_site,
      THEN conjunct2, THEN conjunct2, THEN conjunct2, THEN conjunct2]
    label_facts failing_search
  have e: "getOrCreateTerm termless_site ''Sports'' ''categories'' 300 (news_site, []) =
       (None, (news_site, [Threw (GetTerms ''categories'' ''Sports'')]))"
    by simp
  from a h m e show ?thesis by simp
qed
section \<open>Media ingestion\<close>

text \<open>
  Claim C7, on the code. The download of the uploader does not look at the content type:
  for a response of type \<open>text/html\<close> it returns the bytes, uploadMedia uploads them as a
  media item of type \<open>text/html\<close>, and the row is created with that item as featured media.
  The download of the reproduction script returns null for the same response.
\<close>

theorem C7_html_response_is_uploaded:
  "uploadMedia example_host private_drive_site share_url 300 (empty_site, []) =
     (Inr (Some 1),
      (empty_site\<lparr>site_next := 2\<rparr>,
       [Returned (AxiosGet share_url), Sleep 300,
        Returned (PostMedia ''<!DOCTYPE html><html><title>Sign in</title></html>'' ''text/html''
                    ''photo.jpg'')]))
   \<and> post_writes (row_trace example_host private_drive_site example_config image_row 1
         (empty_site, [])) =
       [PostPosts \<lparr>pd_title = ''Menu'', pd_content = ''Our new menu'', pd_status = ''draft'',
          pd_slug = None, pd_excerpt = None, pd_acf = None, pd_categories = None,
          pd_tags = None, pd_featured_media = Some 1\<rparr>]
   \<and> fst (downloadImageFromUrl_script example_host private_drive_site share_url (empty_site, [])) =
       None"
  by code_simp

text \<open>
  Claim C8, on the code. uploadMedia downloads the share link as it is written: the
  uploader has no rewrite to the direct-download form. convertGoogleDriveUrl of the
  reproduction script rewrites the same link to the direct-download form with its
  identifier, and leaves a link without drive pattern unchanged.
\<close>

theorem C8_share_link_is_fetched_unchanged:
  "requests (snd (snd (uploadMedia example_host memory_site share_url 300 (empty_site, [])))) =
     [AxiosGet ''https://drive.google.com/file/d/106UqbiAdo-z6ROElnyEqHI-8Klhb_g2Z/view?usp=sharing'',
      PostMedia ''JFIF'' ''image/jpeg'' ''photo.jpg'']
   \<and> convertGoogleDriveUrl share_url =
       ''https://drive.google.com/uc?export=download&id=106UqbiAdo-z6ROElnyEqHI-8Klhb_g2Z''
   \<and> convertGoogleDriveUrl ''https://drive.google.com/open?id=106UqbiAdo-z6ROElnyEqHI-8Klhb_g2Z'' =
       ''https://drive.google.com/uc?export=download&id=106UqbiAdo-z6ROElnyEqHI-8Klhb_g2Z''
   \<and> convertGoogleDriveUrl ''https://example.com/images/menu.jpg'' =
       ''https://example.com/images/menu.jpg''"
  by code_simp

end
